theory Spec2Isabelle
  imports Main "HOL-Library.Word"
begin

unbundle bit_operations_syntax

section \<open>Bytes and buffers\<close>

text \<open>
  A Node \<open>Buffer\<close> is a sequence of bytes; the h5.buffers reader used by the transports
  is a queue of bytes consumed from the front.
\<close>

type_synonym byte = "8 word"
type_synonym buffer = "byte list"

section \<open>CRC-16 of the RTU and Tunnel transports\<close>

text \<open>
  \<open>CRC_TABLE\<close> as it stands in RtuTransport and (identically) in TunnelTransport.
\<close>

definition CRC_TABLE :: "16 word list" where
  "CRC_TABLE = [
     0x0000, 0xC0C1, 0xC181, 0x0140, 0xC301, 0x03C0, 0x0280, 0xC241,
     0xC601, 0x06C0, 0x0780, 0xC741, 0x0500, 0xC5C1, 0xC481, 0x0440,
     0xCC01, 0x0CC0, 0x0D80, 0xCD41, 0x0F00, 0xCFC1, 0xCE81, 0x0E40,
     0x0A00, 0xCAC1, 0xCB81, 0x0B40, 0xC901, 0x09C0, 0x0880, 0xC841,
     0xD801, 0x18C0, 0x1980, 0xD941, 0x1B00, 0xDBC1, 0xDA81, 0x1A40,
     0x1E00, 0xDEC1, 0xDF81, 0x1F40, 0xDD01, 0x1DC0, 0x1C80, 0xDC41,
     0x1400, 0xD4C1, 0xD581, 0x1540, 0xD701, 0x17C0, 0x1680, 0xD641,
     0xD201, 0x12C0, 0x1380, 0xD341, 0x1100, 0xD1C1, 0xD081, 0x1040,
     0xF001, 0x30C0, 0x3180, 0xF141, 0x3300, 0xF3C1, 0xF281, 0x3240,
     0x3600, 0xF6C1, 0xF781, 0x3740, 0xF501, 0x35C0, 0x3480, 0xF441,
     0x3C00, 0xFCC1, 0xFD81, 0x3D40, 0xFF01, 0x3FC0, 0x3E80, 0xFE41,
     0xFA01, 0x3AC0, 0x3B80, 0xFB41, 0x3900, 0xF9C1, 0xF881, 0x3840,
     0x2800, 0xE8C1, 0xE981, 0x2940, 0xEB01, 0x2BC0, 0x2A80, 0xEA41,
     0xEE01, 0x2EC0, 0x2F80, 0xEF41, 0x2D00, 0xEDC1, 0xEC81, 0x2C40,
     0xE401, 0x24C0, 0x2580, 0xE541, 0x2700, 0xE7C1, 0xE681, 0x2640,
     0x2200, 0xE2C1, 0xE381, 0x2340, 0xE101, 0x21C0, 0x2080, 0xE041,
     0xA001, 0x60C0, 0x6180, 0xA141, 0x6300, 0xA3C1, 0xA281, 0x6240,
     0x6600, 0xA6C1, 0xA781, 0x6740, 0xA501, 0x65C0, 0x6480, 0xA441,
     0x6C00, 0xACC1, 0xAD81, 0x6D40, 0xAF01, 0x6FC0, 0x6E80, 0xAE41,
     0xAA01, 0x6AC0, 0x6B80, 0xAB41, 0x6900, 0xA9C1, 0xA881, 0x6840,
     0x7800, 0xB8C1, 0xB981, 0x7940, 0xBB01, 0x7BC0, 0x7A80, 0xBA41,
     0xBE01, 0x7EC0, 0x7F80, 0xBF41, 0x7D00, 0xBDC1, 0xBC81, 0x7C40,
     0xB401, 0x74C0, 0x7580, 0xB541, 0x7700, 0xB7C1, 0xB681, 0x7640,
     0x7200, 0xB2C1, 0xB381, 0x7340, 0xB101, 0x71C0, 0x7080, 0xB041,
     0x5000, 0x90C1, 0x9181, 0x5140, 0x9301, 0x53C0, 0x5280, 0x9241,
     0x9601, 0x56C0, 0x5780, 0x9741, 0x5500, 0x95C1, 0x9481, 0x5440,
     0x9C01, 0x5CC0, 0x5D80, 0x9D41, 0x5F00, 0x9FC1, 0x9E81, 0x5E40,
     0x5A00, 0x9AC1, 0x9B81, 0x5B40, 0x9901, 0x59C0, 0x5880, 0x9841,
     0x8801, 0x48C0, 0x4980, 0x8941, 0x4B00, 0x8BC1, 0x8A81, 0x4A40,
     0x4E00, 0x8EC1, 0x8F81, 0x4F40, 0x8D01, 0x4DC0, 0x4C80, 0x8C41,
     0x4400, 0x84C1, 0x8581, 0x4540, 0x8701, 0x47C0, 0x4680, 0x8641,
     0x8201, 0x42C0, 0x4380, 0x8341, 0x4100, 0x81C1, 0x8081, 0x4040]"

text \<open>
  One round of the table-driven update:
  \<open>j = (crc ^ b) & 0xFF; crc >>= 8; crc ^= CRC_TABLE[j]\<close>.
  The index \<open>j\<close> is below 256, so the table read is always in range.
\<close>

definition crc_step :: "16 word \<Rightarrow> 16 word \<Rightarrow> 16 word" where
  "crc_step crc b = (let j = (crc XOR b) AND 0xFF in drop_bit 8 crc XOR CRC_TABLE ! unat j)"

text \<open>
  \<open>crc16(firstByte, buffer)\<close>: seeded with 0xFFFF; the first byte is folded in unless it
  is the sentinel \<open>-1\<close>; then every byte of the buffer in order.
\<close>

definition crc16 :: "int \<Rightarrow> buffer \<Rightarrow> 16 word" where
  "crc16 firstByte buf =
     (let crc = (0xFFFF :: 16 word);
          crc1 = (if firstByte \<noteq> - 1 then crc_step crc (word_of_int firstByte) else crc)
      in foldl (\<lambda>c b. crc_step c (ucast b)) crc1 buf)"

text \<open>
  \<open>builder.pushUInt16(v, true)\<close>: the 16-bit value little-endian, low byte first.
\<close>

definition pushUInt16LE :: "16 word \<Rightarrow> buffer" where
  "pushUInt16LE v = [ucast v, ucast (drop_bit 8 v)]"


section \<open>Errors, transactions and the effects a transport emits\<close>

text \<open>
  The message of an \<open>InvalidResponseDataError\<close>, kept as its content rather than as a
  formatted string: which header field was rejected, with the expected and actual unit
  where the source formats them.
\<close>

datatype response_data_problem =
    BadVersion int
  | BadLength
  | BadUnit int int

text \<open>
  Modelled from the spec: the module \<open>errors\<close> is not among the sources. The transports
  name its classes \<open>IncompleteResponseFrameError\<close>, \<open>InvalidChecksumError\<close> and
  \<open>InvalidResponseDataError\<close>; the spec's taxonomy adds \<open>IncompletePdu\<close>,
  \<open>InvalidFunctionCode\<close> and \<open>InvalidOptions\<close> for the codec. \<open>RangeError\<close> is
  Node's, and \<open>Error\<close> is a plain \<open>new Error(message)\<close> of the source.
\<close>

datatype error =
    IncompleteResponseFrameError
  | InvalidChecksumError
  | InvalidResponseDataError response_data_problem
  | IncompletePdu
  | InvalidFunctionCode
  | InvalidOptions
  | RangeError
  | Error string

text \<open>
  Modelled from the spec: the class \<open>Transaction\<close> is not among the sources. The spec
  gives a transaction one request, a target unit and a cached encoded ADU that is set
  at most once; the transports read them with \<open>getRequest()\<close>, \<open>getUnit()\<close> and
  \<open>getAdu()\<close> (\<open>null\<close> until \<open>setAdu\<close> is called). What a transaction does when
  it is started or handed a response or an error is outside the transports and appears
  below as an effect.
\<close>

record 'req transaction =
  tx_request :: 'req
  tx_unit :: int
  tx_adu :: "buffer option"

text \<open>
  What a transport does to the outside, in program order: events it emits, bytes it
  writes to the connection, and the calls it makes on a transaction.
  \<open>Start t None\<close> is \<open>t.start(this.handleTimeout)\<close>; \<open>Start t (Some i)\<close> is
  \<open>t.start(this.createTimeoutHandler(i))\<close> of the IP transport.
\<close>

datatype ('req, 'resp) effect =
    EmitRequest "'req transaction"
  | Write buffer
  | Start "'req transaction" "int option"
  | HandleResponse "'req transaction" 'resp
  | HandleError "'req transaction" error
  | Sniff string "buffer option"
  | ConsoleLog byte

section \<open>The byte-queue reader and the buffer builder\<close>

text \<open>
  The operations of the h5.buffers \<open>BufferQueueReader\<close> on the queued bytes. Each shift
  removes bytes from the front; a request the queue cannot serve raises, which is the
  value \<open>None\<close> here. \<open>shiftBuffer\<close> takes a count between 1 and the reader's length;
  \<open>skip\<close> stops at the end of the queue.
\<close>

definition shiftByte :: "buffer \<Rightarrow> (byte \<times> buffer) option" where
  "shiftByte r = (case r of [] \<Rightarrow> None | b # r' \<Rightarrow> Some (b, r'))"

definition shiftBuffer :: "int \<Rightarrow> buffer \<Rightarrow> (buffer \<times> buffer) option" where
  "shiftBuffer n r =
     (if 1 \<le> n \<and> n \<le> int (length r) then Some (take (nat n) r, drop (nat n) r) else None)"

definition shiftUInt16LE :: "buffer \<Rightarrow> (16 word \<times> buffer) option" where
  "shiftUInt16LE r =
     (case r of lo # hi # r' \<Rightarrow> Some (push_bit 8 (ucast hi) OR ucast lo, r') | _ \<Rightarrow> None)"

definition shiftUInt16BE :: "buffer \<Rightarrow> (int \<times> buffer) option" where
  "shiftUInt16BE r =
     (case r of hi # lo # r' \<Rightarrow> Some (uint hi * 256 + uint lo, r') | _ \<Rightarrow> None)"

definition skip :: "nat \<Rightarrow> buffer \<Rightarrow> buffer" where
  "skip n r = drop (min n (length r)) r"

text \<open>
  \<open>BufferBuilder.pushByte\<close> and \<open>pushUInt16\<close> (big-endian) accept a number in the range
  of the field and raise otherwise.
\<close>

definition pushByte :: "int \<Rightarrow> buffer option" where
  "pushByte v = (if 0 \<le> v \<and> v \<le> 255 then Some [word_of_int v] else None)"

definition pushUInt16BE :: "int \<Rightarrow> buffer option" where
  "pushUInt16BE v =
     (if 0 \<le> v \<and> v \<le> 65535 then Some [word_of_int (v div 256), word_of_int v] else None)"

text \<open>
  The three shifts both serial transports apply to a received frame:
  \<open>unit = shiftByte(); responseBuffer = shiftBuffer(length - 2); checksum = shiftUInt16(true)\<close>.
\<close>

definition shiftFrame :: "buffer \<Rightarrow> (byte \<times> buffer \<times> 16 word \<times> buffer) option" where
  "shiftFrame r =
     (case shiftByte r of None \<Rightarrow> None
      | Some (unit, r1) \<Rightarrow>
          (case shiftBuffer (int (length r1) - 2) r1 of None \<Rightarrow> None
           | Some (responseBuffer, r2) \<Rightarrow>
               (case shiftUInt16LE r2 of None \<Rightarrow> None
                | Some (checksum, r3) \<Rightarrow> Some (unit, responseBuffer, checksum, r3))))"

section \<open>RTU transport\<close>

definition MIN_FRAME_LENGTH :: nat where
  "MIN_FRAME_LENGTH = 5"

text \<open>
  The transport's state: the transaction in flight, the reader, the \<open>enableEcho\<close>
  option, and \<open>PREV_MSG_COUNT\<close>, a variable of the module that \<open>frame\<close> and
  \<open>handleFrameData\<close> both assign.
\<close>

record 'req rtu_state =
  rtu_transaction :: "'req transaction option"
  rtu_reader :: buffer
  rtu_enableEcho :: bool
  PREV_MSG_COUNT :: nat

text \<open>
  \<open>frame(unit, pdu)\<close>: unit, PDU, CRC low byte first; records the frame's length in
  \<open>PREV_MSG_COUNT\<close>.
\<close>

definition rtu_frame ::
  "'req rtu_state \<Rightarrow> int \<Rightarrow> buffer \<Rightarrow> (buffer \<times> 'req rtu_state) option" where
  "rtu_frame st unit pdu =
     (case pushByte unit of None \<Rightarrow> None
      | Some u \<Rightarrow>
          Some (u @ pdu @ pushUInt16LE (crc16 unit pdu),
                st\<lparr>PREV_MSG_COUNT := 1 + length pdu + 2\<rparr>))"

text \<open>\<open>skipResponseData\<close>: empties the reader and forgets the transaction.\<close>

definition rtu_skipResponseData :: "'req rtu_state \<Rightarrow> 'req rtu_state" where
  "rtu_skipResponseData st =
     (let st1 = (if length (rtu_reader st) > 0
                 then st\<lparr>rtu_reader := skip (length (rtu_reader st)) (rtu_reader st)\<rparr>
                 else st)
      in st1\<lparr>rtu_transaction := None\<rparr>)"

text \<open>
  \<open>validate\<close>: the checksum is compared first, the unit second.
\<close>

definition rtu_validate ::
  "'req transaction \<Rightarrow> byte \<Rightarrow> buffer \<Rightarrow> 16 word \<Rightarrow> error option" where
  "rtu_validate transaction actualUnit responseBuffer expectedChecksum =
     (let actualChecksum = crc16 (uint actualUnit) responseBuffer in
      if actualChecksum \<noteq> expectedChecksum then Some InvalidChecksumError
      else
        let expectedUnit = tx_unit transaction in
        if uint actualUnit \<noteq> expectedUnit
        then Some (InvalidResponseDataError (BadUnit expectedUnit (uint actualUnit)))
        else None)"

text \<open>
  The echo branch of \<open>handleFrameData\<close>, up to the point where the frame has been taken
  from the reader. The result \<open>Some (st', None)\<close> is \<open>got_no_echo == true\<close>;
  \<open>Some (st', Some (unit, responseBuffer, checksum))\<close> is a frame; \<open>None\<close> is a raise
  of the reader.
\<close>

definition rtu_shiftEcho ::
  "'req rtu_state \<Rightarrow> ('req rtu_state \<times> (byte \<times> buffer \<times> 16 word) option) option" where
  "rtu_shiftEcho st =
     (let st1 = (if length (rtu_reader st) < PREV_MSG_COUNT st
                 then st\<lparr>PREV_MSG_COUNT := 0\<rparr> else st);
          st2 = (if PREV_MSG_COUNT st1 = 0 then st1\<lparr>PREV_MSG_COUNT := 1\<rparr> else st1)
      in if length (rtu_reader st2) > PREV_MSG_COUNT st2
         then
           (case shiftFrame (skip (PREV_MSG_COUNT st2) (rtu_reader st2)) of None \<Rightarrow> None
            | Some (unit, responseBuffer, checksum, r) \<Rightarrow>
                Some (st2\<lparr>rtu_reader := r\<rparr>, Some (unit, responseBuffer, checksum)))
         else
           (case shiftBuffer (int (length (rtu_reader st2))) (rtu_reader st2) of None \<Rightarrow> None
            | Some (discarded, r) \<Rightarrow> Some (st2\<lparr>rtu_reader := r\<rparr>, None)))"

text \<open>The branch without echo: the frame is taken from the reader as it is.\<close>

definition rtu_shiftPlain ::
  "'req rtu_state \<Rightarrow> ('req rtu_state \<times> (byte \<times> buffer \<times> 16 word) option) option" where
  "rtu_shiftPlain st =
     (case shiftFrame (rtu_reader st) of None \<Rightarrow> None
      | Some (unit, responseBuffer, checksum, r) \<Rightarrow>
          Some (st\<lparr>rtu_reader := r\<rparr>, Some (unit, responseBuffer, checksum)))"

text \<open>
  \<open>handleFrameData\<close>, run when the end-of-frame timer fires. \<open>createResponse\<close> is the
  request's decoder; what it throws is caught and handed to \<open>handleError\<close>. The result
  \<open>None\<close> is an exception that leaves the handler: a raise of the reader, or a call on
  the transaction when there is none.
\<close>

definition rtu_handleFrameData ::
  "('req \<Rightarrow> buffer \<Rightarrow> error + 'resp) \<Rightarrow> 'req rtu_state
     \<Rightarrow> ('req rtu_state \<times> ('req, 'resp) effect list) option" where
  "rtu_handleFrameData createResponse st =
     (let transaction = rtu_transaction st in
      if length (rtu_reader st) < MIN_FRAME_LENGTH then
        (let st1 = rtu_skipResponseData st in
         case transaction of None \<Rightarrow> None
         | Some t \<Rightarrow> Some (st1, [HandleError t IncompleteResponseFrameError]))
      else
        (case (if rtu_enableEcho st then rtu_shiftEcho st else rtu_shiftPlain st) of
           None \<Rightarrow> None
         | Some (st2, None) \<Rightarrow> Some (st2, [])
         | Some (st2, Some (unit, responseBuffer, checksum)) \<Rightarrow>
             (let st3 = rtu_skipResponseData st2 in
              case transaction of None \<Rightarrow> None
              | Some t \<Rightarrow>
                  (case rtu_validate t unit responseBuffer checksum of
                     Some validationError \<Rightarrow> Some (st3, [HandleError t validationError])
                   | None \<Rightarrow>
                       (case createResponse (tx_request t) responseBuffer of
                          Inr response \<Rightarrow> Some (st3, [HandleResponse t response])
                        | Inl err \<Rightarrow> Some (st3, [HandleError t err]))))))"


section \<open>IP transport\<close>

text \<open>
  \<open>IpTransport.Header\<close>: four numbers, all \<open>-1\<close> while no header has been read.
  \<open>read\<close> stores the length field of the wire minus one, the length of the PDU.
\<close>

record header =
  header_id :: int
  header_version :: int
  header_length :: int
  header_unit :: int

definition header_reset :: header where
  "header_reset = \<lparr>header_id = - 1, header_version = - 1, header_length = - 1, header_unit = - 1\<rparr>"

definition header_read :: "buffer \<Rightarrow> (header \<times> buffer) option" where
  "header_read bufferReader =
     (case shiftUInt16BE bufferReader of None \<Rightarrow> None
      | Some (i, r1) \<Rightarrow>
          (case shiftUInt16BE r1 of None \<Rightarrow> None
           | Some (v, r2) \<Rightarrow>
               (case shiftUInt16BE r2 of None \<Rightarrow> None
                | Some (l, r3) \<Rightarrow>
                    (case shiftByte r3 of None \<Rightarrow> None
                     | Some (u, r4) \<Rightarrow>
                         Some (\<lparr>header_id = i, header_version = v,
                                header_length = l - 1, header_unit = uint u\<rparr>, r4)))))"

text \<open>
  \<open>Header.validate\<close>: an \<open>if / else if\<close> chain over version, length and unit; the
  first branch taken fixes the message.
\<close>

definition header_validate :: "header \<Rightarrow> 'req transaction \<Rightarrow> error option" where
  "header_validate h transaction =
     (let expectedUnit = tx_unit transaction in
      if header_version h \<noteq> 0
      then Some (InvalidResponseDataError (BadVersion (header_version h)))
      else if header_length h = 0
      then Some (InvalidResponseDataError BadLength)
      else if header_unit h \<noteq> expectedUnit
      then Some (InvalidResponseDataError (BadUnit expectedUnit (header_unit h)))
      else None)"

record 'req ip_state =
  ip_reader :: buffer
  ip_header :: header
  nextTransactionId :: int
  transactions :: "int \<rightharpoonup> 'req transaction"

definition IpTransport :: "'req ip_state" where
  "IpTransport =
     \<lparr>ip_reader = [], ip_header = header_reset, nextTransactionId = 0,
      transactions = Map.empty\<rparr>"

text \<open>
  \<open>getNextTransactionId\<close>: pre-increment; on reaching 0xFFFF the counter is set to 0;
  the counter is the id.
\<close>

definition getNextTransactionId :: "'req ip_state \<Rightarrow> int \<times> 'req ip_state" where
  "getNextTransactionId st =
     (let st1 = st\<lparr>nextTransactionId := nextTransactionId st + 1\<rparr>;
          st2 = (if nextTransactionId st1 = 0xFFFF then st1\<lparr>nextTransactionId := 0\<rparr> else st1)
      in (nextTransactionId st2, st2))"

text \<open>
  \<open>frame(id, unit, pdu)\<close>: the MBAP header and the PDU.
\<close>

definition ip_frame :: "int \<Rightarrow> int \<Rightarrow> buffer \<Rightarrow> buffer option" where
  "ip_frame i unit pdu =
     (case pushUInt16BE i of None \<Rightarrow> None
      | Some b1 \<Rightarrow>
          (case pushUInt16BE 0 of None \<Rightarrow> None
           | Some b2 \<Rightarrow>
               (case pushUInt16BE (int (length pdu) + 1) of None \<Rightarrow> None
                | Some b3 \<Rightarrow>
                    (case pushByte unit of None \<Rightarrow> None
                     | Some b4 \<Rightarrow> Some (b1 @ b2 @ b3 @ b4 @ pdu)))))"

text \<open>
  \<open>adu.writeUInt16BE(id, 0)\<close> on a cached ADU: the first two bytes are overwritten.
  Node raises when the value does not fit or the buffer is shorter than two bytes.
\<close>

definition writeUInt16BE0 :: "int \<Rightarrow> buffer \<Rightarrow> buffer option" where
  "writeUInt16BE0 v adu =
     (if 0 \<le> v \<and> v \<le> 65535 \<and> 2 \<le> length adu
      then Some (word_of_int (v div 256) # word_of_int v # drop 2 adu) else None)"

text \<open>
  \<open>getAdu(id, transaction)\<close>: a cached ADU gets the new id; otherwise \<open>buildAdu\<close>
  frames the request's PDU and caches the ADU in the transaction.
\<close>

definition ip_getAdu ::
  "('req \<Rightarrow> buffer) \<Rightarrow> int \<Rightarrow> 'req transaction \<Rightarrow> (buffer \<times> 'req transaction) option" where
  "ip_getAdu request_toBuffer i transaction =
     (case tx_adu transaction of
        None \<Rightarrow>
          (case ip_frame i (tx_unit transaction) (request_toBuffer (tx_request transaction)) of
             None \<Rightarrow> None
           | Some adu \<Rightarrow> Some (adu, transaction\<lparr>tx_adu := Some adu\<rparr>))
      | Some adu \<Rightarrow>
          (case writeUInt16BE0 i adu of None \<Rightarrow> None
           | Some adu' \<Rightarrow> Some (adu', transaction\<lparr>tx_adu := Some adu'\<rparr>)))"

text \<open>
  \<open>sendRequest\<close>: takes the next id, registers the transaction under it, emits
  \<open>request\<close>, writes the ADU and starts the transaction with the timeout handler of
  that id. \<open>None\<close> is a raise while the ADU is built.
\<close>

definition ip_sendRequest ::
  "('req \<Rightarrow> buffer) \<Rightarrow> 'req ip_state \<Rightarrow> 'req transaction
     \<Rightarrow> ('req ip_state \<times> ('req, 'resp) effect list) option" where
  "ip_sendRequest request_toBuffer st transaction =
     (case getNextTransactionId st of (i, st1) \<Rightarrow>
        (case ip_getAdu request_toBuffer i transaction of None \<Rightarrow> None
         | Some (adu, t) \<Rightarrow>
             Some (st1\<lparr>transactions := (transactions st1)(i \<mapsto> t)\<rparr>,
                   [EmitRequest t, Write adu, Start t (Some i)])))"

text \<open>
  \<open>skipResponseData\<close>: skips the announced payload and resets the header.
\<close>

definition ip_skipResponseData :: "'req ip_state \<Rightarrow> 'req ip_state" where
  "ip_skipResponseData st =
     (let st1 = (if header_length (ip_header st) > 0
                 then st\<lparr>ip_reader := skip (nat (header_length (ip_header st))) (ip_reader st)\<rparr>
                 else st)
      in st1\<lparr>ip_header := header_reset\<rparr>)"

text \<open>
  The body of \<open>handleFrameData\<close> up to its closing call of \<open>onData()\<close>, which every
  branch makes.
\<close>

definition ip_handleFrame ::
  "('req \<Rightarrow> buffer \<Rightarrow> error + 'resp) \<Rightarrow> 'req ip_state
     \<Rightarrow> ('req ip_state \<times> ('req, 'resp) effect list) option" where
  "ip_handleFrame createResponse st =
     (case transactions st (header_id (ip_header st)) of
        None \<Rightarrow> Some (ip_skipResponseData st, [])
      | Some transaction \<Rightarrow>
          (let st1 = st\<lparr>transactions := (transactions st)(header_id (ip_header st) := None)\<rparr> in
           case header_validate (ip_header st1) transaction of
             Some validationError \<Rightarrow>
               Some (ip_skipResponseData st1, [HandleError transaction validationError])
           | None \<Rightarrow>
               (case shiftBuffer (header_length (ip_header st1)) (ip_reader st1) of
                  None \<Rightarrow> None
                | Some (responseBuffer, r) \<Rightarrow>
                    Some (st1\<lparr>ip_reader := r, ip_header := header_reset\<rparr>,
                          [case createResponse (tx_request transaction) responseBuffer of
                             Inr response \<Rightarrow> HandleResponse transaction response
                           | Inl err \<Rightarrow> HandleError transaction err]))))"

text \<open>
  Reading a header when none is pending and seven bytes are queued: the first half of
  \<open>onData\<close>.
\<close>

definition ip_readHeader :: "'req ip_state \<Rightarrow> 'req ip_state" where
  "ip_readHeader st =
     (if header_id (ip_header st) = - 1 \<and> length (ip_reader st) \<ge> 7
      then (case header_read (ip_reader st) of
              None \<Rightarrow> st
            | Some (h, r) \<Rightarrow> st\<lparr>ip_reader := r, ip_header := h\<rparr>)
      else st)"


lemma header_read_length:
  "header_read r = Some (h, r') \<Longrightarrow> length r = length r' + 7 \<and> header_id h \<noteq> - 1"
proof -
  assume "header_read r = Some (h, r')"
  then obtain a b c d e f g where r: "r = a # b # c # d # e # f # g # r'"
    and i: "header_id h = uint a * 256 + uint b"
    by (auto simp: header_read_def shiftUInt16BE_def shiftByte_def
             split: option.splits list.splits)
  have "0 \<le> uint a" "0 \<le> uint b" by simp_all
  then have "uint a * 256 + uint b \<noteq> - 1" by arith
  with r i show ?thesis by simp
qed

lemma ip_readHeader_measure:
  "2 * length (ip_reader (ip_readHeader st))
     + (if header_id (ip_header (ip_readHeader st)) = - 1 then 0 else 1)
   \<le> 2 * length (ip_reader st) + (if header_id (ip_header st) = - 1 then 0 else 1)"
  by (auto simp: ip_readHeader_def split: option.splits dest!: header_read_length)

lemma ip_handleFrame_measure:
  "ip_handleFrame cr st = Some (st', e) \<Longrightarrow>
     header_id (ip_header st') = - 1 \<and> length (ip_reader st') \<le> length (ip_reader st)"
  by (auto simp: ip_handleFrame_def ip_skipResponseData_def Let_def header_reset_def
                 skip_def shiftBuffer_def split: option.splits if_splits)

text \<open>
  \<open>onData(data)\<close>: queues the bytes when there are any, reads a header when none is
  pending, and handles the frame once its payload is complete. \<open>handleFrameData\<close> ends
  with \<open>this.onData()\<close>, so the two functions of the source form a loop; it stops
  because every round takes a header off the reader.
\<close>

function ip_onData ::
  "('req \<Rightarrow> buffer \<Rightarrow> error + 'resp) \<Rightarrow> 'req ip_state \<Rightarrow> buffer option
     \<Rightarrow> ('req ip_state \<times> ('req, 'resp) effect list) option" where
  "ip_onData createResponse st data =
     (let st0 = (case data of None \<Rightarrow> st | Some d \<Rightarrow> st\<lparr>ip_reader := ip_reader st @ d\<rparr>);
          st1 = ip_readHeader st0
      in if header_id (ip_header st1) \<noteq> - 1
            \<and> int (length (ip_reader st1)) \<ge> header_length (ip_header st1)
         then (case ip_handleFrame createResponse st1 of None \<Rightarrow> None
               | Some (st2, effs) \<Rightarrow>
                   (case ip_onData createResponse st2 None of None \<Rightarrow> None
                    | Some (st3, effs') \<Rightarrow> Some (st3, effs @ effs')))
         else Some (st1, []))"
  by pat_completeness auto
termination
proof (relation "measure (\<lambda>(cr, st, data).
          2 * (length (ip_reader st) + (case data of None \<Rightarrow> 0 | Some d \<Rightarrow> length d))
          + (if header_id (ip_header st) = - 1 then 0 else 1))", goal_cases)
  case 1
  show ?case by simp
next
  case (2 createResponse st data st0 st1 x2 st2 effs)
  have m0: "2 * length (ip_reader st0) + (if header_id (ip_header st0) = - 1 then 0 else 1)
      = 2 * (length (ip_reader st) + (case data of None \<Rightarrow> 0 | Some d \<Rightarrow> length d))
          + (if header_id (ip_header st) = - 1 then 0 else 1)"
    using 2(1) by (simp split: option.splits)
  have m1: "2 * length (ip_reader st1) + (if header_id (ip_header st1) = - 1 then 0 else 1)
      \<le> 2 * length (ip_reader st0) + (if header_id (ip_header st0) = - 1 then 0 else 1)"
    using 2(2) ip_readHeader_measure[of st0] by simp
  have "ip_handleFrame createResponse st1 = Some (st2, effs)" using 2 by simp
  from ip_handleFrame_measure[OF this]
  have m2: "header_id (ip_header st2) = - 1" "length (ip_reader st2) \<le> length (ip_reader st1)"
    by simp_all
  have "header_id (ip_header st1) \<noteq> - 1" using 2 by simp
  with m0 m1 m2 show ?case by (simp split: if_splits)
qed

text \<open>\<open>handleFrameData\<close>: its body, then \<open>this.onData()\<close>.\<close>

definition ip_handleFrameData ::
  "('req \<Rightarrow> buffer \<Rightarrow> error + 'resp) \<Rightarrow> 'req ip_state
     \<Rightarrow> ('req ip_state \<times> ('req, 'resp) effect list) option" where
  "ip_handleFrameData createResponse st =
     (case ip_handleFrame createResponse st of None \<Rightarrow> None
      | Some (st2, effs) \<Rightarrow>
          (case ip_onData createResponse st2 None of None \<Rightarrow> None
           | Some (st3, effs') \<Rightarrow> Some (st3, effs @ effs')))"

text \<open>Successive \<open>sendRequest\<close> calls, with everything they emit.\<close>

fun ip_sendRequests ::
  "('req \<Rightarrow> buffer) \<Rightarrow> 'req ip_state \<Rightarrow> 'req transaction list
     \<Rightarrow> ('req ip_state \<times> ('req, 'resp) effect list) option" where
  "ip_sendRequests request_toBuffer st [] = Some (st, [])"
| "ip_sendRequests request_toBuffer st (t # ts) =
     (case ip_sendRequest request_toBuffer st t of None \<Rightarrow> None
      | Some (st1, effs) \<Rightarrow>
          (case ip_sendRequests request_toBuffer st1 ts of None \<Rightarrow> None
           | Some (st2, effs') \<Rightarrow> Some (st2, effs @ effs')))"

text \<open>The ids under which an effect list starts transactions, in order.\<close>

fun started_ids :: "('req, 'resp) effect list \<Rightarrow> int list" where
  "started_ids [] = []"
| "started_ids (Start t (Some i) # es) = i # started_ids es"
| "started_ids (e # es) = started_ids es"

section \<open>Tunnel transport\<close>

definition SLAVE_COMMAND :: byte where
  "SLAVE_COMMAND = 71"

text \<open>
  The reader is kept as the queue of the chunks that \<open>onData\<close> pushed, since the
  \<open>sniff\<close> event of a short frame carries the first chunk (\<open>reader.buffers[0]\<close>); the
  shifts work on the bytes of all chunks in order.
\<close>

record 'req tunnel_state =
  tun_transaction :: "'req transaction option"
  tun_nextTransaction :: "'req transaction option"
  tun_reader :: "buffer list"
  tun_sequence :: int
  tun_slaveId :: int

text \<open>
  \<open>startTransaction\<close>: with a current transaction, emits \<open>request\<close> and starts it.
\<close>

definition tun_startTransaction :: "'req tunnel_state \<Rightarrow> ('req, 'resp) effect list" where
  "tun_startTransaction st =
     (case tun_transaction st of None \<Rightarrow> []
      | Some t \<Rightarrow> [EmitRequest t, Start t None])"

text \<open>
  \<open>sendRequest\<close>: the third transaction is refused with an \<open>Error\<close>; the second is
  kept as \<open>nextTransaction\<close>; the first becomes current and is started.
\<close>

definition tun_sendRequest ::
  "'req tunnel_state \<Rightarrow> 'req transaction
     \<Rightarrow> error + ('req tunnel_state \<times> ('req, 'resp) effect list)" where
  "tun_sendRequest st transaction =
     (if tun_transaction st \<noteq> None then
        (if tun_nextTransaction st \<noteq> None
         then Inl (Error (''Sending too many requests to TunnelTransport. ''
                          @ ''maxConcurrentRequests should be 2.''))
         else Inr (st\<lparr>tun_nextTransaction := Some transaction\<rparr>, []))
      else
        (let st1 = st\<lparr>tun_transaction := Some transaction\<rparr>
         in Inr (st1, tun_startTransaction st1)))"

text \<open>\<open>frame(unit, pdu)\<close>: unit, PDU, CRC low byte first.\<close>

definition tun_frame :: "int \<Rightarrow> buffer \<Rightarrow> buffer option" where
  "tun_frame unit pdu =
     (case pushByte unit of None \<Rightarrow> None
      | Some u \<Rightarrow> Some (u @ pdu @ pushUInt16LE (crc16 unit pdu)))"

text \<open>
  \<open>buildAdu\<close>: with a transaction, the reply carries \<open>SLAVE_COMMAND\<close>, the sequence
  number, the target unit and the request's PDU, and is cached in the transaction;
  without one it is the bare \<open>SLAVE_COMMAND\<close> and sequence number. A \<open>Buffer\<close> built
  from an array of numbers keeps each number modulo 256.
\<close>

definition tun_buildAdu ::
  "('req \<Rightarrow> buffer) \<Rightarrow> 'req tunnel_state \<Rightarrow> (buffer \<times> 'req tunnel_state) option" where
  "tun_buildAdu request_toBuffer st =
     (case tun_transaction st of
        Some t \<Rightarrow>
          (let pdu = [SLAVE_COMMAND, word_of_int (tun_sequence st), word_of_int (tx_unit t)]
                     @ request_toBuffer (tx_request t)
           in case tun_frame (tun_slaveId st) pdu of None \<Rightarrow> None
              | Some adu \<Rightarrow> Some (adu, st\<lparr>tun_transaction := Some (t\<lparr>tx_adu := Some adu\<rparr>)\<rparr>))
      | None \<Rightarrow>
          (case tun_frame (tun_slaveId st) [SLAVE_COMMAND, word_of_int (tun_sequence st)] of
             None \<Rightarrow> None
           | Some adu \<Rightarrow> Some (adu, st)))"

text \<open>\<open>getAdu(this.transaction)\<close>: the cached ADU of the transaction, or a new one.\<close>

definition tun_getAdu ::
  "('req \<Rightarrow> buffer) \<Rightarrow> 'req tunnel_state \<Rightarrow> (buffer \<times> 'req tunnel_state) option" where
  "tun_getAdu request_toBuffer st =
     (let adu = (case tun_transaction st of None \<Rightarrow> None | Some t \<Rightarrow> tx_adu t)
      in case adu of None \<Rightarrow> tun_buildAdu request_toBuffer st
         | Some a \<Rightarrow> Some (a, st))"

definition tun_sendSlaveResponse ::
  "('req \<Rightarrow> buffer) \<Rightarrow> 'req tunnel_state
     \<Rightarrow> ('req tunnel_state \<times> ('req, 'resp) effect list) option" where
  "tun_sendSlaveResponse request_toBuffer st =
     (case tun_getAdu request_toBuffer st of None \<Rightarrow> None
      | Some (adu, st1) \<Rightarrow> Some (st1, [Write adu]))"

definition tun_flushReader :: "'req tunnel_state \<Rightarrow> 'req tunnel_state" where
  "tun_flushReader st =
     (if length (concat (tun_reader st)) > 0 then st\<lparr>tun_reader := []\<rparr> else st)"

text \<open>\<open>validate\<close>: only the checksum is compared.\<close>

definition tun_validate :: "byte \<Rightarrow> buffer \<Rightarrow> 16 word \<Rightarrow> error option" where
  "tun_validate actualUnit responseBuffer expectedChecksum =
     (let actualChecksum = crc16 (uint actualUnit) responseBuffer in
      if actualChecksum \<noteq> expectedChecksum then Some InvalidChecksumError else None)"

text \<open>
  The in-sequence branch of \<open>handleFrameData\<close>: the sequence number moves on; a pending
  transaction is closed out when the PDU is longer than two bytes, with the bytes from
  offset 3 as its response, and the next transaction takes its place and is started.
\<close>

definition tun_inSequence ::
  "('req \<Rightarrow> buffer \<Rightarrow> error + 'resp) \<Rightarrow> 'req tunnel_state \<Rightarrow> buffer
     \<Rightarrow> 'req tunnel_state \<times> ('req, 'resp) effect list" where
  "tun_inSequence createResponse st responseBuffer =
     (let st1 = st\<lparr>tun_sequence := (tun_sequence st + 1) AND 255\<rparr> in
      case tun_transaction st1 of
        None \<Rightarrow> (st1, [])
      | Some transaction \<Rightarrow>
          if length responseBuffer > 2 then
            (let st2 = st1\<lparr>tun_transaction := tun_nextTransaction st1,
                           tun_nextTransaction := None\<rparr>
             in (st2,
                 (case createResponse (tx_request transaction) (drop 3 responseBuffer) of
                    Inr response \<Rightarrow> HandleResponse transaction response
                  | Inl err \<Rightarrow> HandleError transaction err)
                 # tun_startTransaction st2))
          else (st1, []))"

text \<open>
  \<open>handleFrameData\<close>, run when the end-of-frame timer fires. A frame shorter than four
  bytes is dropped; a frame with a wrong checksum is dropped; a frame for another unit
  is only reported by \<open>sniff\<close>; a \<open>SLAVE_COMMAND\<close> for this unit is answered, after
  the in-sequence handling when its second byte is the sequence number.
\<close>

definition tun_handleFrameData ::
  "('req \<Rightarrow> buffer \<Rightarrow> error + 'resp) \<Rightarrow> ('req \<Rightarrow> buffer) \<Rightarrow> 'req tunnel_state
     \<Rightarrow> ('req tunnel_state \<times> ('req, 'resp) effect list) option" where
  "tun_handleFrameData createResponse request_toBuffer st =
     (if length (concat (tun_reader st)) < 4 then
        Some (tun_flushReader st,
              [Sniff ''incomplete'' (case tun_reader st of [] \<Rightarrow> None | c # cs \<Rightarrow> Some c)])
      else
        (let rxBuffer = concat (tun_reader st) in
         case shiftFrame rxBuffer of None \<Rightarrow> None
         | Some (unit, responseBuffer, checksum, r) \<Rightarrow>
             (let st1 = st\<lparr>tun_reader := []\<rparr> in
              case tun_validate unit responseBuffer checksum of
                Some validationError \<Rightarrow> Some (st1, [Sniff ''bad checksum'' (Some rxBuffer)])
              | None \<Rightarrow>
                  if uint unit = tun_slaveId st1 then
                    (if responseBuffer ! 0 = SLAVE_COMMAND then
                       (case (if length responseBuffer > 1
                                 \<and> uint (responseBuffer ! 1) = tun_sequence st1
                              then tun_inSequence createResponse st1 responseBuffer
                              else (st1, [])) of
                          (st2, effs) \<Rightarrow>
                            (case tun_sendSlaveResponse request_toBuffer st2 of None \<Rightarrow> None
                             | Some (st3, effs') \<Rightarrow>
                                 Some (st3, Sniff ''pdu'' (Some rxBuffer) # effs @ effs')))
                     else Some (st1, [Sniff ''pdu'' (Some rxBuffer),
                                      ConsoleLog (responseBuffer ! 0)]))
                  else Some (st1, [Sniff ''pdu'' (Some rxBuffer)]))))"


section \<open>Function codec\<close>

subsection \<open>Node buffers\<close>

text \<open>
  \<open>new Buffer(n)\<close> is taken as \<open>n\<close> zero bytes (older Node releases leave the
  content open; it matters only where \<open>copy\<close> does not fill the buffer).
  \<open>source.copy(target, 0, sourceStart, sourceEnd)\<close> first checks the start: a start
  behind the end of the source raises a \<open>RangeError\<close>. Then it returns at once when
  nothing can be copied, and otherwise copies as many bytes as source, range and target
  allow; the rest of the target keeps its content.
\<close>

definition newBuffer :: "nat \<Rightarrow> buffer" where
  "newBuffer n = replicate n 0"

definition buffer_copy :: "buffer \<Rightarrow> buffer \<Rightarrow> nat \<Rightarrow> nat \<Rightarrow> error + buffer" where
  "buffer_copy source target sourceStart sourceEnd =
     (if sourceStart > length source then Inl RangeError
      else if length target = 0 \<or> sourceStart \<ge> sourceEnd then Inr target
      else
        (let to_copy = min (min (sourceEnd - sourceStart) (length target))
                           (length source - sourceStart)
         in Inr (take to_copy (drop sourceStart source) @ drop to_copy target)))"

definition readUInt16BE :: "buffer \<Rightarrow> nat \<Rightarrow> int" where
  "readUInt16BE buffer offset = uint (buffer ! offset) * 256 + uint (buffer ! (offset + 1))"

definition writeUInt16BE :: "int \<Rightarrow> buffer" where
  "writeUInt16BE v = [word_of_int (v div 256), word_of_int v]"

text \<open>
  A number stored into one byte of a buffer. The constructors below check that the
  numbers they keep lie between 0 and 255.
\<close>

definition byte_of :: "int \<Rightarrow> byte" where
  "byte_of v = word_of_int v"

subsection \<open>Checks shared by the message types\<close>

definition andThen :: "error + 'a \<Rightarrow> ('a \<Rightarrow> error + 'b) \<Rightarrow> error + 'b" where
  "andThen r f = (case r of Inl e \<Rightarrow> Inl e | Inr x \<Rightarrow> f x)"

text \<open>
  Modelled from the spec: the helper module \<open>util\<close> of the function codec
  (\<open>assertBufferLength\<close>, \<open>assertFunctionCode\<close>, \<open>prepareNumericOption\<close>,
  \<open>prepareAddress\<close>, \<open>prepareRegisterValue\<close>) is not among the sources. The spec
  says: truncation fails with \<open>IncompletePdu\<close>, a wrong function code fails with
  \<open>InvalidFunctionCode\<close>, out-of-range values fail with \<open>InvalidOptions\<close>, and
  addresses and register values lie in [0, 0xFFFF]. The default of
  \<open>prepareNumericOption\<close> stands for an absent value, which a decoded byte never is.
\<close>

definition assertBufferLength :: "buffer \<Rightarrow> nat \<Rightarrow> error + unit" where
  "assertBufferLength buffer minLength =
     (if length buffer < minLength then Inl IncompletePdu else Inr ())"

definition assertFunctionCode :: "byte \<Rightarrow> byte \<Rightarrow> error + unit" where
  "assertFunctionCode actualCode expectedCode =
     (if actualCode \<noteq> expectedCode then Inl InvalidFunctionCode else Inr ())"

definition prepareNumericOption :: "int \<Rightarrow> int \<Rightarrow> int \<Rightarrow> int \<Rightarrow> error + int" where
  "prepareNumericOption v defaultValue lo hi =
     (if v < lo \<or> v > hi then Inl InvalidOptions else Inr v)"

definition prepareAddress :: "int \<Rightarrow> error + int" where
  "prepareAddress address = prepareNumericOption address 0 0 65535"

definition prepareRegisterValue :: "int \<Rightarrow> error + int" where
  "prepareRegisterValue v = prepareNumericOption v 0 0 65535"

subsection \<open>Messages\<close>

text \<open>
  One constructor for each request and response type among the sources, with the
  fields the object keeps. \<open>ReadFifo8Response\<close> keeps its status as the two flags
  \<open>more\<close> and \<open>overflow\<close>; \<open>ReportSlaveIdResponse\<close> keeps the version as three numbers.
\<close>

datatype message =
    CommandRequest int buffer
  | CommandResponse int buffer
  | ReadObjectRequest int
  | ReadObjectResponse buffer
  | WriteObjectRequest int buffer
  | WriteObjectResponse int
  | ReadMemoryRequest int int
  | ReadMemoryResponse buffer
  | WriteMemoryRequest int buffer
  | WriteMemoryResponse int
  | ReadFifo8Request int int
  | ReadFifo8Response bool bool buffer
  | WriteFifo8Request int buffer
  | WriteFifo8Response int
  | ReportSlaveIdRequest
  | ReportSlaveIdResponse int int int int int buffer
  | ReadDiagnosticsResponse int int
  | WriteSingleCoilResponse int bool

text \<open>
  The constructors of the source, with their checks in the order the source makes them.
  A check written out in a constructor throws a plain \<open>Error\<close>.
\<close>

definition values_length_error :: error where
  "values_length_error = Error ''The length of the `values` buffer is out of range''"

definition new_CommandRequest :: "int \<Rightarrow> buffer \<Rightarrow> error + message" where
  "new_CommandRequest i vs =
     andThen (prepareNumericOption i 0 0 255) (\<lambda>i'. Inr (CommandRequest i' vs))"

definition new_CommandResponse :: "int \<Rightarrow> buffer \<Rightarrow> error + message" where
  "new_CommandResponse i vs =
     (if length vs > 250 then Inl values_length_error
      else if i < 0 \<or> i > 255 then Inl (Error ''Invalid Command ID (must be 0 to 255)'')
      else Inr (CommandResponse i vs))"

definition new_ReadObjectRequest :: "int \<Rightarrow> error + message" where
  "new_ReadObjectRequest i =
     andThen (prepareNumericOption i 0 0 255) (\<lambda>i'. Inr (ReadObjectRequest i'))"

definition new_ReadObjectResponse :: "buffer \<Rightarrow> error + message" where
  "new_ReadObjectResponse vs =
     (if length vs > 250 then Inl values_length_error else Inr (ReadObjectResponse vs))"

definition new_WriteObjectRequest :: "int \<Rightarrow> buffer \<Rightarrow> error + message" where
  "new_WriteObjectRequest i vs =
     (if length vs < 1 \<or> length vs > 250 then Inl values_length_error
      else andThen (prepareNumericOption i 0 0 255) (\<lambda>i'. Inr (WriteObjectRequest i' vs)))"

definition new_WriteObjectResponse :: "int \<Rightarrow> error + message" where
  "new_WriteObjectResponse quantity =
     andThen (prepareNumericOption quantity 0 0 250) (\<lambda>status. Inr (WriteObjectResponse status))"

definition new_ReadMemoryRequest :: "int \<Rightarrow> int \<Rightarrow> error + message" where
  "new_ReadMemoryRequest address count =
     andThen (prepareAddress address) (\<lambda>a.
     andThen (prepareNumericOption count 250 1 250) (\<lambda>c. Inr (ReadMemoryRequest a c)))"

definition new_ReadMemoryResponse :: "buffer \<Rightarrow> error + message" where
  "new_ReadMemoryResponse vs =
     (if length vs > 250 then Inl values_length_error else Inr (ReadMemoryResponse vs))"

definition new_WriteMemoryRequest :: "int \<Rightarrow> buffer \<Rightarrow> error + message" where
  "new_WriteMemoryRequest address vs =
     (if length vs < 1 \<or> length vs > 250 then Inl values_length_error
      else andThen (prepareAddress address) (\<lambda>a. Inr (WriteMemoryRequest a vs)))"

definition new_WriteMemoryResponse :: "int \<Rightarrow> error + message" where
  "new_WriteMemoryResponse quantity =
     andThen (prepareNumericOption quantity 0 0 250) (\<lambda>status. Inr (WriteMemoryResponse status))"

definition new_ReadFifo8Request :: "int \<Rightarrow> int \<Rightarrow> error + message" where
  "new_ReadFifo8Request i mx =
     andThen (prepareNumericOption i 0 0 255) (\<lambda>i'.
     andThen (prepareNumericOption mx 0 0 250) (\<lambda>m. Inr (ReadFifo8Request i' m)))"

definition new_ReadFifo8Response :: "bool \<Rightarrow> bool \<Rightarrow> buffer \<Rightarrow> error + message" where
  "new_ReadFifo8Response more_flag overflow_flag vs =
     (if length vs > 250 then Inl values_length_error
      else Inr (ReadFifo8Response more_flag overflow_flag vs))"

definition new_WriteFifo8Request :: "int \<Rightarrow> buffer \<Rightarrow> error + message" where
  "new_WriteFifo8Request i vs =
     (if length vs < 1 \<or> length vs > 250 then Inl values_length_error
      else andThen (prepareNumericOption i 0 0 255) (\<lambda>i'. Inr (WriteFifo8Request i' vs)))"

definition new_WriteFifo8Response :: "int \<Rightarrow> error + message" where
  "new_WriteFifo8Response quantity =
     andThen (prepareNumericOption quantity 0 0 250) (\<lambda>q. Inr (WriteFifo8Response q))"

text \<open>
  \<open>ReportSlaveIdResponse\<close> takes the version as the string \<open>"a.b.c"\<close> that
  \<open>fromBuffer\<close> formats from three bytes, splits it at the dots and parses the three
  parts; the three numbers are passed on as they are here.
\<close>

definition new_ReportSlaveIdResponse ::
  "int \<Rightarrow> int \<Rightarrow> int \<Rightarrow> int \<Rightarrow> int \<Rightarrow> buffer \<Rightarrow> error + message" where
  "new_ReportSlaveIdResponse product run v0 v1 v2 vs =
     (if product < 0 \<or> product > 255 then Inl (Error ''Invalid Product ID'')
      else if run < 0 \<or> run > 255 then Inl (Error ''Invalid Run Indicator'')
      else Inr (ReportSlaveIdResponse product run v0 v1 v2 vs))"

text \<open>
  \<open>ReadDiagnosticsResponse\<close> has one parameter, which it keeps as \<open>address\<close>; its
  \<open>value\<close> is always \<open>prepareRegisterValue(0)\<close>.
\<close>

definition new_ReadDiagnosticsResponse :: "int \<Rightarrow> error + message" where
  "new_ReadDiagnosticsResponse v =
     andThen (prepareAddress v) (\<lambda>a.
     andThen (prepareRegisterValue 0) (\<lambda>z. Inr (ReadDiagnosticsResponse a z)))"

definition new_WriteSingleCoilResponse :: "int \<Rightarrow> bool \<Rightarrow> error + message" where
  "new_WriteSingleCoilResponse address state =
     andThen (prepareAddress address) (\<lambda>a. Inr (WriteSingleCoilResponse a state))"

subsection \<open>fromBuffer\<close>

definition CommandRequest_fromBuffer :: "buffer \<Rightarrow> error + message" where
  "CommandRequest_fromBuffer buffer =
     andThen (assertBufferLength buffer 2) (\<lambda>_.
     andThen (assertFunctionCode (buffer ! 0) 0x47) (\<lambda>_.
       (let i = uint (buffer ! 1);
            byteCount = length buffer - 2;
            vs = newBuffer byteCount
        in andThen (buffer_copy buffer vs 3 (3 + byteCount)) (\<lambda>vs'.
           new_CommandRequest i vs'))))"

definition CommandResponse_fromBuffer :: "buffer \<Rightarrow> error + message" where
  "CommandResponse_fromBuffer buffer =
     andThen (assertBufferLength buffer 2) (\<lambda>_.
     andThen (assertFunctionCode (buffer ! 0) 0x47) (\<lambda>_.
       (let i = uint (buffer ! 1);
            byteCount = length buffer - 2;
            vs = newBuffer byteCount
        in andThen (buffer_copy buffer vs 2 (byteCount + 2)) (\<lambda>vs'.
           new_CommandResponse i vs'))))"

definition ReadObjectRequest_fromBuffer :: "buffer \<Rightarrow> error + message" where
  "ReadObjectRequest_fromBuffer buffer =
     andThen (assertBufferLength buffer 2) (\<lambda>_.
     andThen (assertFunctionCode (buffer ! 0) 0x43) (\<lambda>_.
       new_ReadObjectRequest (uint (buffer ! 1))))"

definition ReadObjectResponse_fromBuffer :: "buffer \<Rightarrow> error + message" where
  "ReadObjectResponse_fromBuffer buffer =
     andThen (assertBufferLength buffer 2) (\<lambda>_.
     andThen (assertFunctionCode (buffer ! 0) 0x43) (\<lambda>_.
       (let byteCount = unat (buffer ! 1);
            vs = newBuffer byteCount
        in andThen (buffer_copy buffer vs 2 (byteCount + 2)) (\<lambda>vs'.
           new_ReadObjectResponse vs'))))"

definition WriteObjectRequest_fromBuffer :: "buffer \<Rightarrow> error + message" where
  "WriteObjectRequest_fromBuffer buffer =
     andThen (assertBufferLength buffer 4) (\<lambda>_.
     andThen (assertFunctionCode (buffer ! 0) 0x44) (\<lambda>_.
       (let i = uint (buffer ! 1);
            byteCount = unat (buffer ! 2);
            vs = newBuffer byteCount
        in andThen (buffer_copy buffer vs 3 (3 + byteCount)) (\<lambda>vs'.
           new_WriteObjectRequest i vs'))))"

definition WriteObjectResponse_fromBuffer :: "buffer \<Rightarrow> error + message" where
  "WriteObjectResponse_fromBuffer buffer =
     andThen (assertBufferLength buffer 2) (\<lambda>_.
     andThen (assertFunctionCode (buffer ! 0) 0x44) (\<lambda>_.
       new_WriteObjectResponse (uint (buffer ! 1))))"

definition ReadMemoryRequest_fromBuffer :: "buffer \<Rightarrow> error + message" where
  "ReadMemoryRequest_fromBuffer buffer =
     andThen (assertBufferLength buffer 4) (\<lambda>_.
     andThen (assertFunctionCode (buffer ! 0) 0x45) (\<lambda>_.
       new_ReadMemoryRequest (readUInt16BE buffer 1) (uint (buffer ! 3))))"

definition ReadMemoryResponse_fromBuffer :: "buffer \<Rightarrow> error + message" where
  "ReadMemoryResponse_fromBuffer buffer =
     andThen (assertBufferLength buffer 2) (\<lambda>_.
     andThen (assertFunctionCode (buffer ! 0) 0x45) (\<lambda>_.
       (let byteCount = length buffer - 1;
            vs = newBuffer byteCount
        in andThen (buffer_copy buffer vs 1 (byteCount + 1)) (\<lambda>vs'.
           new_ReadMemoryResponse vs'))))"

definition WriteMemoryRequest_fromBuffer :: "buffer \<Rightarrow> error + message" where
  "WriteMemoryRequest_fromBuffer buffer =
     andThen (assertBufferLength buffer 4) (\<lambda>_.
     andThen (assertFunctionCode (buffer ! 0) 0x46) (\<lambda>_.
       (let address = readUInt16BE buffer 1;
            byteCount = length buffer - 3;
            vs = newBuffer byteCount
        in andThen (buffer_copy buffer vs 3 (byteCount + 3)) (\<lambda>vs'.
           new_WriteMemoryRequest address vs'))))"

definition WriteMemoryResponse_fromBuffer :: "buffer \<Rightarrow> error + message" where
  "WriteMemoryResponse_fromBuffer buffer =
     andThen (assertBufferLength buffer 2) (\<lambda>_.
     andThen (assertFunctionCode (buffer ! 0) 0x46) (\<lambda>_.
       new_WriteMemoryResponse (uint (buffer ! 1))))"

definition ReadFifo8Request_fromBuffer :: "buffer \<Rightarrow> error + message" where
  "ReadFifo8Request_fromBuffer buffer =
     andThen (assertBufferLength buffer 3) (\<lambda>_.
     andThen (assertFunctionCode (buffer ! 0) 0x41) (\<lambda>_.
       new_ReadFifo8Request (uint (buffer ! 1)) (uint (buffer ! 2))))"

definition ReadFifo8Response_fromBuffer :: "buffer \<Rightarrow> error + message" where
  "ReadFifo8Response_fromBuffer buffer =
     andThen (assertBufferLength buffer 3) (\<lambda>_.
     andThen (assertFunctionCode (buffer ! 0) 0x41) (\<lambda>_.
       (let more_flag = (buffer ! 1 AND 0x01 > 0);
            overflow_flag = (buffer ! 1 AND 0x02 > 0);
            byteCount = unat (buffer ! 2);
            vs = newBuffer byteCount
        in andThen (buffer_copy buffer vs 3 (byteCount + 3)) (\<lambda>vs'.
           new_ReadFifo8Response more_flag overflow_flag vs'))))"

definition WriteFifo8Request_fromBuffer :: "buffer \<Rightarrow> error + message" where
  "WriteFifo8Request_fromBuffer buffer =
     andThen (assertBufferLength buffer 4) (\<lambda>_.
     andThen (assertFunctionCode (buffer ! 0) 0x42) (\<lambda>_.
       (let i = uint (buffer ! 1);
            byteCount = unat (buffer ! 2);
            vs = newBuffer byteCount
        in andThen (buffer_copy buffer vs 3 (3 + byteCount)) (\<lambda>vs'.
           new_WriteFifo8Request i vs'))))"

definition WriteFifo8Response_fromBuffer :: "buffer \<Rightarrow> error + message" where
  "WriteFifo8Response_fromBuffer buffer =
     andThen (assertBufferLength buffer 2) (\<lambda>_.
     andThen (assertFunctionCode (buffer ! 0) 0x42) (\<lambda>_.
       new_WriteFifo8Response (uint (buffer ! 1))))"

definition ReportSlaveIdRequest_fromBuffer :: "buffer \<Rightarrow> error + message" where
  "ReportSlaveIdRequest_fromBuffer buffer =
     (if length buffer \<noteq> 1 then Inl (Error ''The specified buffer must be at 1 bytes long'')
      else andThen (assertFunctionCode (buffer ! 0) 0x11) (\<lambda>_. Inr ReportSlaveIdRequest))"

definition ReportSlaveIdResponse_fromBuffer :: "buffer \<Rightarrow> error + message" where
  "ReportSlaveIdResponse_fromBuffer buffer =
     andThen (assertBufferLength buffer 7) (\<lambda>_.
     andThen (assertFunctionCode (buffer ! 0) 0x11) (\<lambda>_.
       (let numValues = length buffer - 7;
            vs = newBuffer numValues
        in andThen (if numValues > 0 then buffer_copy buffer vs 7 (length buffer) else Inr vs)
             (\<lambda>vs'.
           new_ReportSlaveIdResponse (uint (buffer ! 2)) (uint (buffer ! 3))
             (uint (buffer ! 4)) (uint (buffer ! 5)) (uint (buffer ! 6)) vs'))))"

text \<open>
  \<open>ReadDiagnosticsResponse.fromBuffer\<close> reads both 16-bit fields and calls the
  constructor with both; the constructor takes the first.
\<close>

definition ReadDiagnosticsResponse_fromBuffer :: "buffer \<Rightarrow> error + message" where
  "ReadDiagnosticsResponse_fromBuffer buffer =
     andThen (assertBufferLength buffer 5) (\<lambda>_.
     andThen (assertFunctionCode (buffer ! 0) 0x08) (\<lambda>_.
       (let address = readUInt16BE buffer 1;
            v = readUInt16BE buffer 3
        in new_ReadDiagnosticsResponse address)))"

definition WriteSingleCoilResponse_fromBuffer :: "buffer \<Rightarrow> error + message" where
  "WriteSingleCoilResponse_fromBuffer buffer =
     andThen (assertBufferLength buffer 5) (\<lambda>_.
     andThen (assertFunctionCode (buffer ! 0) 0x05) (\<lambda>_.
       (let address = readUInt16BE buffer 1;
            state = (readUInt16BE buffer 3 = 0xFF00)
        in new_WriteSingleCoilResponse address state)))"

subsection \<open>toBuffer\<close>

fun toBuffer :: "message \<Rightarrow> buffer" where
  "toBuffer (CommandRequest i vs) = [0x47, byte_of i] @ vs"
| "toBuffer (CommandResponse i vs) = [0x47, byte_of i] @ vs"
| "toBuffer (ReadObjectRequest i) = [0x43, byte_of i]"
| "toBuffer (ReadObjectResponse vs) = [0x43, byte_of (int (length vs))] @ vs"
| "toBuffer (WriteObjectRequest i vs) = [0x44, byte_of i, byte_of (int (length vs))] @ vs"
| "toBuffer (WriteObjectResponse status) = [0x44, byte_of status]"
| "toBuffer (ReadMemoryRequest address count) = [0x45] @ writeUInt16BE address @ [byte_of count]"
| "toBuffer (ReadMemoryResponse vs) = [0x45] @ vs"
| "toBuffer (WriteMemoryRequest address vs) = [0x46] @ writeUInt16BE address @ vs"
| "toBuffer (WriteMemoryResponse status) = [0x46, byte_of status]"
| "toBuffer (ReadFifo8Request i mx) = [0x41, byte_of i, byte_of mx]"
| "toBuffer (ReadFifo8Response more_flag overflow_flag vs) =
     (let status = (0 :: byte);
          status1 = (if more_flag then status OR 1 else status);
          status2 = (if overflow_flag then status1 OR 2 else status1)
      in [0x41, status2, byte_of (int (length vs))] @ vs)"
| "toBuffer (WriteFifo8Request i vs) = [0x42, byte_of i, byte_of (int (length vs))] @ vs"
| "toBuffer (WriteFifo8Response quantity) = [0x42, byte_of quantity]"
| "toBuffer ReportSlaveIdRequest = [0x11]"
| "toBuffer (ReportSlaveIdResponse product run v0 v1 v2 vs) =
     [0x11, byte_of product, byte_of run, byte_of v0, byte_of v1, byte_of v2] @ vs"
| "toBuffer (ReadDiagnosticsResponse address v) =
     [0x08] @ writeUInt16BE address @ writeUInt16BE v"
| "toBuffer (WriteSingleCoilResponse address state) =
     [0x05] @ writeUInt16BE address @ writeUInt16BE (if state then 0xFF00 else 0x0000)"

subsection \<open>The message types and their layouts\<close>

datatype message_type =
    TCommandRequest | TCommandResponse
  | TReadObjectRequest | TReadObjectResponse
  | TWriteObjectRequest | TWriteObjectResponse
  | TReadMemoryRequest | TReadMemoryResponse
  | TWriteMemoryRequest | TWriteMemoryResponse
  | TReadFifo8Request | TReadFifo8Response
  | TWriteFifo8Request | TWriteFifo8Response
  | TReportSlaveIdRequest | TReportSlaveIdResponse
  | TReadDiagnosticsResponse | TWriteSingleCoilResponse

fun fromBuffer :: "message_type \<Rightarrow> buffer \<Rightarrow> error + message" where
  "fromBuffer TCommandRequest = CommandRequest_fromBuffer"
| "fromBuffer TCommandResponse = CommandResponse_fromBuffer"
| "fromBuffer TReadObjectRequest = ReadObjectRequest_fromBuffer"
| "fromBuffer TReadObjectResponse = ReadObjectResponse_fromBuffer"
| "fromBuffer TWriteObjectRequest = WriteObjectRequest_fromBuffer"
| "fromBuffer TWriteObjectResponse = WriteObjectResponse_fromBuffer"
| "fromBuffer TReadMemoryRequest = ReadMemoryRequest_fromBuffer"
| "fromBuffer TReadMemoryResponse = ReadMemoryResponse_fromBuffer"
| "fromBuffer TWriteMemoryRequest = WriteMemoryRequest_fromBuffer"
| "fromBuffer TWriteMemoryResponse = WriteMemoryResponse_fromBuffer"
| "fromBuffer TReadFifo8Request = ReadFifo8Request_fromBuffer"
| "fromBuffer TReadFifo8Response = ReadFifo8Response_fromBuffer"
| "fromBuffer TWriteFifo8Request = WriteFifo8Request_fromBuffer"
| "fromBuffer TWriteFifo8Response = WriteFifo8Response_fromBuffer"
| "fromBuffer TReportSlaveIdRequest = ReportSlaveIdRequest_fromBuffer"
| "fromBuffer TReportSlaveIdResponse = ReportSlaveIdResponse_fromBuffer"
| "fromBuffer TReadDiagnosticsResponse = ReadDiagnosticsResponse_fromBuffer"
| "fromBuffer TWriteSingleCoilResponse = WriteSingleCoilResponse_fromBuffer"

text \<open>
  The layouts of the function code catalog, read as exact: the buffer is as long as
  the layout says, a byte count \<open>N\<close> counts the bytes that follow it, the status of a
  FIFO read uses the two bits that stand for \<open>more\<close> and \<open>overflow\<close>, and the value
  of a coil is 0xFF00 or 0x0000. Three types are left out: \<open>CommandRequest\<close>,
  \<open>ReportSlaveIdResponse\<close> and \<open>ReadDiagnosticsResponse\<close>.
\<close>

fun exact_layout :: "message_type \<Rightarrow> buffer \<Rightarrow> bool" where
  "exact_layout TCommandRequest b = False"
| "exact_layout TCommandResponse b = True"
| "exact_layout TReadObjectRequest b = (length b = 2)"
| "exact_layout TReadObjectResponse b = (length b = 2 + unat (b ! 1))"
| "exact_layout TWriteObjectRequest b = (length b = 3 + unat (b ! 2))"
| "exact_layout TWriteObjectResponse b = (length b = 2)"
| "exact_layout TReadMemoryRequest b = (length b = 4)"
| "exact_layout TReadMemoryResponse b = True"
| "exact_layout TWriteMemoryRequest b = True"
| "exact_layout TWriteMemoryResponse b = (length b = 2)"
| "exact_layout TReadFifo8Request b = (length b = 3)"
| "exact_layout TReadFifo8Response b = (length b = 3 + unat (b ! 2) \<and> b ! 1 \<le> 3)"
| "exact_layout TWriteFifo8Request b = (length b = 3 + unat (b ! 2))"
| "exact_layout TWriteFifo8Response b = (length b = 2)"
| "exact_layout TReportSlaveIdRequest b = (length b = 1)"
| "exact_layout TReportSlaveIdResponse b = False"
| "exact_layout TReadDiagnosticsResponse b = False"
| "exact_layout TWriteSingleCoilResponse b =
     (length b = 5 \<and> (readUInt16BE b 3 = 0xFF00 \<or> readUInt16BE b 3 = 0x0000))"


section \<open>Notions used in the statements\<close>

text \<open>
  The parts of a serial frame \<open>[unit(1)] [pdu(N)] [crc(2, low byte first)]\<close>, read off
  the received bytes by position.
\<close>

definition frame_unit :: "buffer \<Rightarrow> byte" where
  "frame_unit r = hd r"

definition frame_pdu :: "buffer \<Rightarrow> buffer" where
  "frame_pdu r = butlast (butlast (tl r))"

definition frame_crc :: "buffer \<Rightarrow> 16 word" where
  "frame_crc r = push_bit 8 (ucast (last r)) OR ucast (last (butlast r))"

text \<open>
  Two transaction slots hold the same transaction when request and unit agree; the
  cached ADU may have been set in between.
\<close>

definition same_transaction ::
  "'req transaction option \<Rightarrow> 'req transaction option \<Rightarrow> bool" where
  "same_transaction a b =
     (map_option (\<lambda>t. (tx_request t, tx_unit t)) a
        = map_option (\<lambda>t. (tx_request t, tx_unit t)) b)"

text \<open>
  The transaction id an ADU of the IP transport carries: its first two bytes, read
  big-endian.
\<close>

definition adu_txid :: "buffer \<Rightarrow> int option" where
  "adu_txid adu = map_option fst (shiftUInt16BE adu)"

text \<open>
  What one \<open>sendRequest\<close> of the IP transport leaves behind, as a triple of the id, the
  transaction as it is registered and the ADU written: the transaction is the submitted
  one with that ADU cached, and the ADU carries the id; the effects are the \<open>request\<close>
  event, the write of the ADU and the start with the timeout handler of the id; the
  entry of the map is the transaction under the id.
\<close>

definition sent_as :: "int \<times> 'req transaction \<times> buffer \<Rightarrow> 'req transaction \<Rightarrow> bool" where
  "sent_as s t =
     (case s of (i, t', adu) \<Rightarrow> t' = t\<lparr>tx_adu := Some adu\<rparr> \<and> adu_txid adu = Some i)"

definition request_effects ::
  "int \<times> 'req transaction \<times> buffer \<Rightarrow> ('req, 'resp) effect list" where
  "request_effects s =
     (case s of (i, t', adu) \<Rightarrow> [EmitRequest t', Write adu, Start t' (Some i)])"

definition registration ::
  "int \<times> 'req transaction \<times> buffer \<Rightarrow> int \<times> 'req transaction" where
  "registration s = (case s of (i, t', adu) \<Rightarrow> (i, t'))"

section \<open>Auxiliary facts\<close>

subsection \<open>Bytes and 16-bit values\<close>

lemma uint_byte_range: "0 \<le> uint (a::byte) \<and> uint a \<le> 255"
  using uint_bounded[of a] by simp

lemma uint16_range:
  "0 \<le> uint (a::byte) * 256 + uint (b::byte) \<and> uint a * 256 + uint b \<le> 65535"
proof -
  have "0 \<le> uint a" "uint a < 256" "0 \<le> uint b" "uint b < 256"
    using uint_bounded[of a] uint_bounded[of b] by simp_all
  then show ?thesis by arith
qed

lemma uint16_bytes:
  "word_of_int ((uint (a::byte) * 256 + uint (b::byte)) div 256) = a"
  "word_of_int (uint (a::byte) * 256 + uint (b::byte)) = b"
proof -
  have "0 \<le> uint b" "uint b < 256" using uint_bounded[of b] by simp_all
  then have "(uint a * 256 + uint b) div 256 = uint a" by simp
  then show "word_of_int ((uint a * 256 + uint b) div 256) = a" by simp
  have "(word_of_int (uint a * 256 + uint b) :: byte)
          = word_of_int (uint a) * 256 + word_of_int (uint b)"
    by simp
  also have "\<dots> = b"
  proof -
    have z: "(256::byte) = 0" by code_simp
    show ?thesis unfolding z by simp
  qed
  finally show "word_of_int (uint a * 256 + uint b) = b" .
qed

lemma write_read_UInt16BE: "writeUInt16BE (uint (a::byte) * 256 + uint (b::byte)) = [a, b]"
  by (simp only: writeUInt16BE_def uint16_bytes)

lemma word16_of_bytes:
  "push_bit 8 (ucast (ucast (drop_bit 8 c) :: byte)) OR ucast (ucast c :: byte) = (c :: 16 word)"
  by (rule bit_word_eqI) (auto simp: bit_simps)

lemma and_255: "0 \<le> (x::int) \<Longrightarrow> x AND 255 = x mod 256"
proof -
  have "x AND 255 = x AND mask 8" by (simp add: mask_eq_exp_minus_1)
  also have "\<dots> = take_bit 8 x" by (simp add: take_bit_eq_mask)
  also have "\<dots> = x mod 256" by (simp add: take_bit_eq_mod)
  finally show ?thesis .
qed

lemma byte_le_3: "(b::byte) \<le> 3 \<Longrightarrow> b = 0 \<or> b = 1 \<or> b = 2 \<or> b = 3"
proof -
  assume "b \<le> 3"
  then have "unat b \<le> 3" by (simp add: word_le_nat_alt)
  then have "unat b = 0 \<or> unat b = 1 \<or> unat b = 2 \<or> unat b = 3" by arith
  then have "word_of_nat (unat b) = (word_of_nat 0 :: byte)
     \<or> word_of_nat (unat b) = (word_of_nat 1 :: byte)
     \<or> word_of_nat (unat b) = (word_of_nat 2 :: byte)
     \<or> word_of_nat (unat b) = (word_of_nat 3 :: byte)"
    by presburger
  then show ?thesis by simp
qed

lemma status_bits_0:
  "(if (0::byte) AND 2 > 0 then (if (0::byte) AND 1 > 0 then (0::byte) OR 1 else 0) OR 2
    else (if (0::byte) AND 1 > 0 then 0 OR 1 else 0)) = 0"
  by simp

lemma status_bits_1:
  "(if (1::byte) AND 2 > 0 then (if (1::byte) AND 1 > 0 then (0::byte) OR 1 else 0) OR 2
    else (if (1::byte) AND 1 > 0 then 0 OR 1 else 0)) = 1"
  by simp

lemma status_bits_2:
  "(if (2::byte) AND 2 > 0 then (if (2::byte) AND 1 > 0 then (0::byte) OR 1 else 0) OR 2
    else (if (2::byte) AND 1 > 0 then 0 OR 1 else 0)) = 2"
  by simp

lemma status_bits_3:
  "(if (3::byte) AND 2 > 0 then (if (3::byte) AND 1 > 0 then (0::byte) OR 1 else 0) OR 2
    else (if (3::byte) AND 1 > 0 then 0 OR 1 else 0)) = 3"
  by simp

lemma status_bits:
  "(b::byte) \<le> 3 \<Longrightarrow>
   (if b AND 2 > 0 then (if b AND 1 > 0 then (0::byte) OR 1 else 0) OR 2
    else (if b AND 1 > 0 then 0 OR 1 else 0)) = b"
  using byte_le_3[of b] status_bits_0 status_bits_1 status_bits_2 status_bits_3 by blast

subsection \<open>Lists of a known length\<close>

lemma list2: "2 \<le> length B \<Longrightarrow> \<exists>a b r. B = a # b # r"
  by (cases B; cases "tl B") auto

lemma list3: "3 \<le> length B \<Longrightarrow> \<exists>a b c r. B = a # b # c # r"
  by (cases B; cases "tl B"; cases "tl (tl B)") auto

lemma buffer_copy_exact:
  "length B = k + n \<Longrightarrow> buffer_copy B (newBuffer n) k (k + n) = Inr (drop k B)"
  by (cases "n = 0") (simp_all add: buffer_copy_def newBuffer_def)

subsection \<open>Taking a frame off the reader\<close>

lemma shiftUInt16LE_push: "shiftUInt16LE (pushUInt16LE c @ r) = Some (c, r)"
  by (simp add: shiftUInt16LE_def pushUInt16LE_def word16_of_bytes)

lemma shiftFrame_frame:
  "pdu \<noteq> [] \<Longrightarrow> shiftFrame (unit # pdu @ pushUInt16LE c) = Some (unit, pdu, c, [])"
  using shiftUInt16LE_push[of c "[]"]
  by (simp add: shiftFrame_def shiftByte_def shiftBuffer_def pushUInt16LE_def Suc_le_eq)

lemma frame_decompose:
  assumes "4 \<le> length r"
  shows "\<exists>lo hi. r = frame_unit r # frame_pdu r @ [lo, hi] \<and> frame_pdu r \<noteq> []
           \<and> frame_crc r = push_bit 8 (ucast hi) OR ucast lo"
proof -
  from assms obtain u r1 where r: "r = u # r1" by (cases r) auto
  with assms have "3 \<le> length r1" by simp
  then have "r1 \<noteq> []" by auto
  then obtain r2 hi where r1: "r1 = r2 @ [hi]" by (metis append_butlast_last_id)
  with \<open>3 \<le> length r1\<close> have "2 \<le> length r2" by simp
  then have "r2 \<noteq> []" by auto
  then obtain p lo where r2: "r2 = p @ [lo]" by (metis append_butlast_last_id)
  with \<open>2 \<le> length r2\<close> have "p \<noteq> []" by auto
  show ?thesis
    using r r1 r2 \<open>p \<noteq> []\<close>
    by (simp add: frame_unit_def frame_pdu_def frame_crc_def butlast_append)
qed

lemma shiftFrame_parts:
  assumes "4 \<le> length r"
  shows "shiftFrame r = Some (frame_unit r, frame_pdu r, frame_crc r, [])"
proof -
  from frame_decompose[OF assms] obtain lo hi where
    r: "r = frame_unit r # frame_pdu r @ [lo, hi]" and ne: "frame_pdu r \<noteq> []"
    and c: "frame_crc r = push_bit 8 (ucast hi) OR ucast lo" by blast
  have "shiftFrame (frame_unit r # frame_pdu r @ [lo, hi])
          = Some (frame_unit r, frame_pdu r, push_bit 8 (ucast hi) OR ucast lo, [])"
    using ne by (simp add: shiftFrame_def shiftByte_def shiftBuffer_def shiftUInt16LE_def Suc_le_eq)
  with r c show ?thesis by simp
qed


section \<open>The CRC reference vector\<close>

text \<open>
  C2, as stated: \<open>crc16\<close> of unit byte 0x01 followed by the single PDU byte 0x11 is
  0xD080. It is not: the value below is a different one.
\<close>

theorem crc16_reference_vector_refuted: "crc16 1 [0x11] \<noteq> 0xD080"
  by code_simp

text \<open>
  C2, amended: with seed 0xFFFF and the table of 256 entries, \<open>crc16\<close> of unit byte
  0x01 followed by the single PDU byte 0x11 is 0x2CC0, and \<open>pushUInt16(crc, true)\<close> puts
  the low byte first on the wire: C0 2C.
\<close>

theorem crc16_reference_vector:
  "crc16 1 [0x11] = 0x2CC0
   \<and> pushUInt16LE (crc16 1 [0x11]) = [0xC0, 0x2C]
   \<and> length CRC_TABLE = 256"
  by code_simp

section \<open>Tunnel transport: queueing of requests\<close>

text \<open>
  C8: the Tunnel transport queues at most two transactions. With no transaction
  pending, \<open>sendRequest\<close> makes the submitted transaction current and starts it (it emits
  \<open>request\<close> and calls \<open>start\<close>); with one pending and none waiting, it stores the
  transaction as next, does nothing else and returns; with both slots taken it throws.
\<close>

theorem tunnel_sendRequest_queue:
  fixes st :: "'req tunnel_state"
  shows
  "(tun_transaction st = None \<longrightarrow>
      tun_sendRequest st t
        = Inr (st\<lparr>tun_transaction := Some t\<rparr>,
               [EmitRequest t, Start t None :: ('req, 'resp) effect]))
   \<and> (tun_transaction st \<noteq> None \<and> tun_nextTransaction st = None \<longrightarrow>
      tun_sendRequest st t
        = Inr (st\<lparr>tun_nextTransaction := Some t\<rparr>, ([] :: ('req, 'resp) effect list)))
   \<and> (tun_transaction st \<noteq> None \<and> tun_nextTransaction st \<noteq> None \<longrightarrow>
      (tun_sendRequest st t :: error + ('req tunnel_state \<times> ('req, 'resp) effect list))
        = Inl (Error (''Sending too many requests to TunnelTransport. ''
                      @ ''maxConcurrentRequests should be 2.'')))"
  by (simp add: tun_sendRequest_def tun_startTransaction_def)

text \<open>
  The three cases at a transport with slave id 127: an idle one, one with a pending
  transaction, and one with both slots taken.
\<close>

theorem tunnel_sendRequest_queue_witness:
  "tun_sendRequest
     \<lparr>tun_transaction = None, tun_nextTransaction = None, tun_reader = [],
      tun_sequence = 0, tun_slaveId = 127\<rparr>
     \<lparr>tx_request = (3 :: nat), tx_unit = 1, tx_adu = None\<rparr>
   = Inr (\<lparr>tun_transaction = Some \<lparr>tx_request = 3, tx_unit = 1, tx_adu = None\<rparr>,
           tun_nextTransaction = None, tun_reader = [], tun_sequence = 0, tun_slaveId = 127\<rparr>,
          [EmitRequest \<lparr>tx_request = 3, tx_unit = 1, tx_adu = None\<rparr>,
           Start \<lparr>tx_request = 3, tx_unit = 1, tx_adu = None\<rparr> None :: (nat, unit) effect])
   \<and> tun_sendRequest
     \<lparr>tun_transaction = Some \<lparr>tx_request = (3 :: nat), tx_unit = 1, tx_adu = None\<rparr>,
      tun_nextTransaction = None, tun_reader = [], tun_sequence = 0, tun_slaveId = 127\<rparr>
     \<lparr>tx_request = 4, tx_unit = 1, tx_adu = None\<rparr>
   = Inr (\<lparr>tun_transaction = Some \<lparr>tx_request = 3, tx_unit = 1, tx_adu = None\<rparr>,
           tun_nextTransaction = Some \<lparr>tx_request = 4, tx_unit = 1, tx_adu = None\<rparr>,
           tun_reader = [], tun_sequence = 0, tun_slaveId = 127\<rparr>,
          ([] :: (nat, unit) effect list))
   \<and> (tun_sendRequest
     \<lparr>tun_transaction = Some \<lparr>tx_request = (3 :: nat), tx_unit = 1, tx_adu = None\<rparr>,
      tun_nextTransaction = Some \<lparr>tx_request = 4, tx_unit = 1, tx_adu = None\<rparr>,
      tun_reader = [], tun_sequence = 0, tun_slaveId = 127\<rparr>
     \<lparr>tx_request = 5, tx_unit = 1, tx_adu = None\<rparr>
       :: error + (nat tunnel_state \<times> (nat, unit) effect list))
     = Inl (Error (''Sending too many requests to TunnelTransport. ''
                   @ ''maxConcurrentRequests should be 2.''))"
  using
    tunnel_sendRequest_queue[where 'resp = unit, of
      "\<lparr>tun_transaction = None, tun_nextTransaction = None, tun_reader = [],
        tun_sequence = 0, tun_slaveId = 127\<rparr>"
      "\<lparr>tx_request = (3 :: nat), tx_unit = 1, tx_adu = None\<rparr>"]
    tunnel_sendRequest_queue[where 'resp = unit, of
      "\<lparr>tun_transaction = Some \<lparr>tx_request = (3 :: nat), tx_unit = 1, tx_adu = None\<rparr>,
        tun_nextTransaction = None, tun_reader = [], tun_sequence = 0, tun_slaveId = 127\<rparr>"
      "\<lparr>tx_request = 4, tx_unit = 1, tx_adu = None\<rparr>"]
    tunnel_sendRequest_queue[where 'resp = unit, of
      "\<lparr>tun_transaction = Some \<lparr>tx_request = (3 :: nat), tx_unit = 1, tx_adu = None\<rparr>,
        tun_nextTransaction = Some \<lparr>tx_request = 4, tx_unit = 1, tx_adu = None\<rparr>,
        tun_reader = [], tun_sequence = 0, tun_slaveId = 127\<rparr>"
      "\<lparr>tx_request = 5, tx_unit = 1, tx_adu = None\<rparr>"]
  by simp

section \<open>Tunnel transport: frames for other units\<close>

text \<open>
  C9: a well-framed inbound frame (unit, a non-empty PDU, and the CRC-16 of both, low
  byte first) whose unit byte differs from the configured slave id leaves the sequence
  counter, the current transaction and the next transaction as they were; the frame is
  reported by \<open>sniff\<close> and the reader is emptied.
\<close>

theorem tunnel_other_unit_unchanged:
  fixes st :: "'req tunnel_state"
    and createResponse :: "'req \<Rightarrow> buffer \<Rightarrow> error + 'resp"
  assumes "concat (tun_reader st) = unit # pdu @ pushUInt16LE (crc16 (uint unit) pdu)"
    and "pdu \<noteq> []"
    and "uint unit \<noteq> tun_slaveId st"
  shows "\<exists>st'. tun_handleFrameData createResponse request_toBuffer st
                 = Some (st', [Sniff ''pdu'' (Some (concat (tun_reader st)))])
           \<and> tun_sequence st' = tun_sequence st
           \<and> tun_transaction st' = tun_transaction st
           \<and> tun_nextTransaction st' = tun_nextTransaction st"
proof -
  have len: "\<not> length (concat (tun_reader st)) < 4"
    using assms(1,2) by (cases pdu) (simp_all add: pushUInt16LE_def)
  have sf: "shiftFrame (concat (tun_reader st)) = Some (unit, pdu, crc16 (uint unit) pdu, [])"
    using assms(1,2) shiftFrame_frame by simp
  have "tun_handleFrameData createResponse request_toBuffer st
          = Some (st\<lparr>tun_reader := []\<rparr>, [Sniff ''pdu'' (Some (concat (tun_reader st)))])"
    unfolding tun_handleFrameData_def
    using len sf assms(3) by (simp add: tun_validate_def Let_def)
  then show ?thesis by simp
qed

text \<open>
  A transport with slave id 127, sequence number 0 and one pending transaction hears
  the frame \<open>10 47 00 01 75 31\<close>, addressed to unit 16.
\<close>

theorem tunnel_other_unit_unchanged_witness:
  "\<exists>st'. tun_handleFrameData (\<lambda>req b. (Inr b :: error + buffer)) (\<lambda>req. [0x11])
            \<lparr>tun_transaction = Some \<lparr>tx_request = (), tx_unit = 1, tx_adu = None\<rparr>,
             tun_nextTransaction = None,
             tun_reader = [[0x10, 0x47, 0x00], [0x01, 0x75, 0x31]],
             tun_sequence = 0, tun_slaveId = 127\<rparr>
          = Some (st', [Sniff ''pdu'' (Some [0x10, 0x47, 0x00, 0x01, 0x75, 0x31])])
        \<and> tun_sequence st' = 0
        \<and> tun_transaction st' = Some \<lparr>tx_request = (), tx_unit = 1, tx_adu = None\<rparr>
        \<and> tun_nextTransaction st' = None"
proof -
  have c: "crc16 (uint (0x10 :: byte)) [0x47, 0x00, 0x01] = 0x3175" by code_simp
  have f: "concat (tun_reader
              \<lparr>tun_transaction = Some \<lparr>tx_request = (), tx_unit = 1, tx_adu = None\<rparr>,
               tun_nextTransaction = None,
               tun_reader = [[0x10, 0x47, 0x00], [0x01, 0x75, 0x31]],
               tun_sequence = 0, tun_slaveId = 127\<rparr>)
            = 0x10 # [0x47, 0x00, 0x01] @ pushUInt16LE (crc16 (uint (0x10 :: byte)) [0x47, 0x00, 0x01])"
    unfolding c by (simp add: pushUInt16LE_def)
  have n: "[0x47, 0x00, 0x01 :: byte] \<noteq> []" by simp
  have u: "uint (0x10 :: byte) \<noteq> tun_slaveId
              \<lparr>tun_transaction = Some \<lparr>tx_request = (), tx_unit = 1, tx_adu = None\<rparr>,
               tun_nextTransaction = None,
               tun_reader = [[0x10, 0x47, 0x00], [0x01, 0x75, 0x31]],
               tun_sequence = 0, tun_slaveId = 127\<rparr>"
    by simp
  show ?thesis
    using tunnel_other_unit_unchanged[OF f n u, of "\<lambda>req b. (Inr b :: error + buffer)" "\<lambda>req. [0x11]"]
    by simp
qed


section \<open>RTU transport: the order of validation\<close>

text \<open>
  C3, as stated, covers every RTU transport. With \<open>enableEcho\<close> on it fails: after an
  ADU of 8 bytes was framed, the reader holds the 8 bytes \<open>01 03 00 00 00 03 00 00\<close>,
  which are more than 5 and whose last two bytes are not the CRC of the others
  (that is 0xCB05). The handler takes the 8 bytes for the echo, empties the reader and
  reports nothing: the transaction does not fail with \<open>InvalidChecksum\<close>, it gets no
  call at all and stays in flight.
\<close>

theorem rtu_validation_order_echo_counterexample:
  "crc16 1 [0x03, 0x00, 0x00, 0x00, 0x03] = 0xCB05
   \<and> rtu_handleFrameData (\<lambda>req b. (Inr b :: error + buffer))
     \<lparr>rtu_transaction = Some \<lparr>tx_request = (), tx_unit = 1, tx_adu = None\<rparr>,
      rtu_reader = [0x01, 0x03, 0x00, 0x00, 0x00, 0x03, 0x00, 0x00],
      rtu_enableEcho = True, PREV_MSG_COUNT = 8\<rparr>
   = Some (\<lparr>rtu_transaction = Some \<lparr>tx_request = (), tx_unit = 1, tx_adu = None\<rparr>,
            rtu_reader = [], rtu_enableEcho = True, PREV_MSG_COUNT = 8\<rparr>, [])"
  by code_simp

text \<open>
  C3, amended: with \<open>enableEcho\<close> off (the default), when the end-of-frame timer fires
  with a transaction in flight, the reader is emptied, the transport forgets the
  transaction, and the transaction gets exactly one call, decided in this order: fewer
  than 5 bytes give \<open>IncompleteResponseFrame\<close>; otherwise a CRC that does not match
  gives \<open>InvalidChecksum\<close>; otherwise a unit byte other than the transaction's unit gives
  \<open>InvalidResponseData\<close>; otherwise the PDU is decoded and the outcome of the decoder
  is delivered, a response by \<open>handleResponse\<close> and a decoding error by \<open>handleError\<close>.
\<close>

theorem rtu_validation_order:
  fixes st :: "'req rtu_state"
    and createResponse :: "'req \<Rightarrow> buffer \<Rightarrow> error + 'resp"
  assumes "rtu_transaction st = Some t" and "\<not> rtu_enableEcho st"
  shows "rtu_handleFrameData createResponse st =
     Some (st\<lparr>rtu_reader := [], rtu_transaction := None\<rparr>,
       [if length (rtu_reader st) < 5 then HandleError t IncompleteResponseFrameError
        else if crc16 (uint (frame_unit (rtu_reader st))) (frame_pdu (rtu_reader st))
                  \<noteq> frame_crc (rtu_reader st)
        then HandleError t InvalidChecksumError
        else if uint (frame_unit (rtu_reader st)) \<noteq> tx_unit t
        then HandleError t (InvalidResponseDataError
               (BadUnit (tx_unit t) (uint (frame_unit (rtu_reader st)))))
        else (case createResponse (tx_request t) (frame_pdu (rtu_reader st)) of
                Inr response \<Rightarrow> HandleResponse t response
              | Inl err \<Rightarrow> HandleError t err)])"
proof (cases "length (rtu_reader st) < 5")
  case True
  then show ?thesis
    using assms
    by (simp add: rtu_handleFrameData_def MIN_FRAME_LENGTH_def rtu_skipResponseData_def
          skip_def Let_def)
next
  case False
  then have "4 \<le> length (rtu_reader st)" by simp
  from shiftFrame_parts[OF this] False assms show ?thesis
    by (simp add: rtu_handleFrameData_def MIN_FRAME_LENGTH_def rtu_skipResponseData_def
          skip_def rtu_shiftPlain_def rtu_validate_def Let_def split: sum.splits)
qed

text \<open>
  The frame \<open>01 83 02 C0 F1\<close> for a transaction to unit 1 passes the three checks and
  its PDU \<open>83 02\<close> is delivered.
\<close>

theorem rtu_validation_order_witness:
  "rtu_handleFrameData (\<lambda>req b. (Inr b :: error + buffer))
     \<lparr>rtu_transaction = Some \<lparr>tx_request = (), tx_unit = 1, tx_adu = None\<rparr>,
      rtu_reader = [0x01, 0x83, 0x02, 0xC0, 0xF1],
      rtu_enableEcho = False, PREV_MSG_COUNT = 8\<rparr>
   = Some (\<lparr>rtu_transaction = None, rtu_reader = [],
            rtu_enableEcho = False, PREV_MSG_COUNT = 8\<rparr>,
           [HandleResponse \<lparr>tx_request = (), tx_unit = 1, tx_adu = None\<rparr> [0x83, 0x02]])"
proof -
  have a: "rtu_transaction
             \<lparr>rtu_transaction = Some \<lparr>tx_request = (), tx_unit = 1, tx_adu = None\<rparr>,
              rtu_reader = [0x01, 0x83, 0x02, 0xC0, 0xF1],
              rtu_enableEcho = False, PREV_MSG_COUNT = 8\<rparr>
           = Some \<lparr>tx_request = (), tx_unit = 1, tx_adu = None\<rparr>"
    by simp
  have b: "\<not> rtu_enableEcho
             \<lparr>rtu_transaction = Some \<lparr>tx_request = (), tx_unit = 1, tx_adu = None\<rparr>,
              rtu_reader = [0x01, 0x83, 0x02, 0xC0, 0xF1],
              rtu_enableEcho = False, PREV_MSG_COUNT = 8\<rparr>"
    by simp
  have parts: "frame_unit [0x01, 0x83, 0x02, 0xC0, 0xF1] = 0x01"
    "frame_pdu [0x01, 0x83, 0x02, 0xC0, 0xF1] = [0x83, 0x02]"
    "frame_crc [0x01, 0x83, 0x02, 0xC0, 0xF1] = 0xF1C0"
    by (simp_all add: frame_unit_def frame_pdu_def frame_crc_def)
  have crc: "crc16 1 [0x83, 0x02] = 0xF1C0" by code_simp
  show ?thesis
    using rtu_validation_order[OF a b, of "\<lambda>req b. (Inr b :: error + buffer)"] parts crc
    by simp
qed

section \<open>RTU transport: echo suppression\<close>

text \<open>
  C7: with \<open>enableEcho\<close> on and a transaction in flight, fewer bytes at the end of the
  frame than the last ADU had are to be discarded as a whole, and the transaction is to
  fail with a no-echo error. The code does not do this. After an ADU of 8 bytes, the
  5 bytes \<open>55 01 11 C0 2C\<close> are fewer: the handler sets \<open>PREV_MSG_COUNT\<close> to 0 and then
  to 1, drops one byte, finds the remaining \<open>01 11 C0 2C\<close> a valid frame for unit 1 and
  delivers its PDU \<open>11\<close> as the response. The transaction does not fail, and
  \<open>PREV_MSG_COUNT\<close> stays at 1.
\<close>

theorem rtu_no_echo_failing_input:
  "rtu_handleFrameData (\<lambda>req b. (Inr b :: error + buffer))
     \<lparr>rtu_transaction = Some \<lparr>tx_request = (), tx_unit = 1, tx_adu = None\<rparr>,
      rtu_reader = [0x55, 0x01, 0x11, 0xC0, 0x2C],
      rtu_enableEcho = True, PREV_MSG_COUNT = 8\<rparr>
   = Some (\<lparr>rtu_transaction = None, rtu_reader = [],
            rtu_enableEcho = True, PREV_MSG_COUNT = 1\<rparr>,
           [HandleResponse \<lparr>tx_request = (), tx_unit = 1, tx_adu = None\<rparr> [0x11]])"
  by code_simp

section \<open>IP transport: validation of the header\<close>

text \<open>
  C4: a received MBAP header whose protocol id is non-zero, or whose length field is 0,
  or whose unit differs from the unit of the matched transaction, is to make that
  transaction fail with \<open>InvalidResponseData\<close>. For the length field the code does not
  do this. The header \<open>00 01 00 00 00 00 01\<close> has protocol id 0, length field 0 and
  unit 1, and a transaction to unit 1 is registered under id 1. \<open>read\<close> stores the
  length \<open>-1\<close>; \<open>validate\<close>, which compares the stored length with 0, finds nothing
  wrong; the transaction has been taken out of the map by then, and
  \<open>shiftBuffer(-1)\<close> raises, so the exception leaves \<open>onData\<close> and the transaction is
  never called.
\<close>

theorem ip_header_length_zero_failing_input:
  "header_read [0x00, 0x01, 0x00, 0x00, 0x00, 0x00, 0x01]
     = Some (\<lparr>header_id = 1, header_version = 0, header_length = - 1, header_unit = 1\<rparr>, [])
   \<and> header_validate
         \<lparr>header_id = 1, header_version = 0, header_length = - 1, header_unit = 1\<rparr>
         \<lparr>tx_request = (), tx_unit = 1, tx_adu = None\<rparr> = None
   \<and> ip_onData (\<lambda>req b. (Inr b :: error + buffer))
         \<lparr>ip_reader = [], ip_header = header_reset, nextTransactionId = 1,
          transactions = [1 \<mapsto> \<lparr>tx_request = (), tx_unit = 1, tx_adu = None\<rparr>]\<rparr>
         (Some [0x00, 0x01, 0x00, 0x00, 0x00, 0x00, 0x01]) = None"
  by code_simp

section \<open>IP transport: transaction ids\<close>

lemma started_ids_append: "started_ids (a @ b) = started_ids a @ started_ids b"
  by (induction a rule: started_ids.induct) simp_all

lemma getNextTransactionId_mod:
  assumes "nextTransactionId st = int (k mod 65535)"
  shows "getNextTransactionId st
           = (int (Suc k mod 65535), st\<lparr>nextTransactionId := int (Suc k mod 65535)\<rparr>)"
proof (cases "Suc (k mod 65535) = 65535")
  case True
  then have "Suc k mod 65535 = 0" by (simp add: mod_Suc)
  moreover from True assms have "nextTransactionId st + 1 = 65535" by simp
  ultimately show ?thesis by (simp add: getNextTransactionId_def Let_def)
next
  case False
  then have s: "Suc k mod 65535 = Suc (k mod 65535)" by (simp add: mod_Suc)
  from False assms have "nextTransactionId st + 1 \<noteq> 65535" by simp
  moreover have "nextTransactionId st + 1 = int (Suc k mod 65535)" using s assms by simp
  ultimately show ?thesis by (simp add: getNextTransactionId_def Let_def)
qed

lemma ip_sendRequest_id:
  assumes "nextTransactionId st = int (k mod 65535)"
    and "ip_sendRequest request_toBuffer st t = Some (st', effs)"
  shows "started_ids effs = [int (Suc k mod 65535)]
         \<and> nextTransactionId st' = int (Suc k mod 65535)"
  using assms(2) getNextTransactionId_mod[OF assms(1)]
  by (auto simp: ip_sendRequest_def split: option.splits)

lemma ip_sendRequests_ids:
  "nextTransactionId st = int (k mod 65535) \<Longrightarrow>
   ip_sendRequests request_toBuffer st ts = Some (st', effs) \<Longrightarrow>
   started_ids effs = map (\<lambda>j. int (j mod 65535)) [Suc k..<Suc k + length ts]
   \<and> nextTransactionId st' = int ((k + length ts) mod 65535)"
proof (induction ts arbitrary: st k effs)
  case Nil
  then show ?case by simp
next
  case (Cons t ts)
  from Cons.prems(2) obtain st1 e1 e2 where
    one: "ip_sendRequest request_toBuffer st t = Some (st1, e1)"
    and rest: "ip_sendRequests request_toBuffer st1 ts = Some (st', e2)"
    and effs: "effs = e1 @ e2"
    by (auto split: option.splits)
  from ip_sendRequest_id[OF Cons.prems(1) one]
  have a: "started_ids e1 = [int (Suc k mod 65535)]"
    and b: "nextTransactionId st1 = int (Suc k mod 65535)" by simp_all
  from Cons.IH[OF b rest]
  have c: "started_ids e2 = map (\<lambda>j. int (j mod 65535)) [Suc (Suc k)..<Suc (Suc k) + length ts]"
    and d: "nextTransactionId st' = int ((Suc k + length ts) mod 65535)" by simp_all
  have "[Suc k..<Suc k + length (t # ts)] = Suc k # [Suc (Suc k)..<Suc (Suc k) + length ts]"
    by (subst upt_rec) simp
  with a c d effs show ?case by (simp add: started_ids_append)
qed

lemma uint_byte_of_int: "uint (word_of_int x :: byte) = x mod 256"
  by (simp add: uint_word_of_int)

lemma adu_txid_bytes:
  assumes "0 \<le> i" "i \<le> 65535"
  shows "adu_txid (word_of_int (i div 256) # word_of_int i # r) = Some i"
proof -
  have "i div 256 < 256" using assms by simp
  moreover have "0 \<le> i div 256" using assms by simp
  ultimately have "(i div 256) mod 256 = i div 256" by simp
  then have "uint (word_of_int (i div 256) :: byte) * 256 + uint (word_of_int i :: byte) = i"
    by (simp add: uint_byte_of_int)
  then show ?thesis by (simp add: adu_txid_def shiftUInt16BE_def)
qed

lemma ip_getAdu_txid:
  assumes "ip_getAdu request_toBuffer i t = Some (adu, t')"
  shows "t' = t\<lparr>tx_adu := Some adu\<rparr> \<and> adu_txid adu = Some i"
proof (cases "tx_adu t")
  case None
  with assms obtain pdu where
    f: "ip_frame i (tx_unit t) pdu = Some adu" and t': "t' = t\<lparr>tx_adu := Some adu\<rparr>"
    by (auto simp: ip_getAdu_def split: option.splits)
  from f obtain r where "adu = word_of_int (i div 256) # word_of_int i # r" "0 \<le> i" "i \<le> 65535"
    by (auto simp: ip_frame_def pushUInt16BE_def split: option.splits if_splits)
  with t' adu_txid_bytes show ?thesis by simp
next
  case (Some old)
  with assms have w: "writeUInt16BE0 i old = Some adu" and t': "t' = t\<lparr>tx_adu := Some adu\<rparr>"
    by (auto simp: ip_getAdu_def split: option.splits)
  from w obtain r where "adu = word_of_int (i div 256) # word_of_int i # r" "0 \<le> i" "i \<le> 65535"
    by (auto simp: writeUInt16BE0_def split: if_splits)
  with t' adu_txid_bytes show ?thesis by simp
qed


lemma ip_sendRequest_sent:
  fixes effs :: "('req, 'resp) effect list"
  assumes "nextTransactionId st = int (k mod 65535)"
    and "ip_sendRequest request_toBuffer st t = Some (st', effs)"
  shows "\<exists>s. fst s = int (Suc k mod 65535) \<and> sent_as s t \<and> effs = request_effects s
             \<and> transactions st' = (transactions st)(fst (registration s) \<mapsto> snd (registration s))
             \<and> nextTransactionId st' = int (Suc k mod 65535)"
proof -
  from assms(2) getNextTransactionId_mod[OF assms(1)] obtain adu t' where
    g: "ip_getAdu request_toBuffer (int (Suc k mod 65535)) t = Some (adu, t')"
    and st': "st' = st\<lparr>nextTransactionId := int (Suc k mod 65535),
                        transactions := (transactions st)(int (Suc k mod 65535) \<mapsto> t')\<rparr>"
    and effs: "effs = [EmitRequest t', Write adu, Start t' (Some (int (Suc k mod 65535)))]"
    by (auto simp: ip_sendRequest_def split: option.splits)
  from ip_getAdu_txid[OF g] st' effs show ?thesis
    by (intro exI[of _ "(int (Suc k mod 65535), t', adu)"])
       (simp add: sent_as_def request_effects_def registration_def)
qed

lemma ip_sendRequests_sent:
  fixes effs :: "('req, 'resp) effect list"
  shows "nextTransactionId st = int (k mod 65535) \<Longrightarrow>
   ip_sendRequests request_toBuffer st ts = Some (st', effs) \<Longrightarrow>
   \<exists>sent. map fst sent = map (\<lambda>j. int (j mod 65535)) [Suc k..<Suc k + length ts]
      \<and> list_all2 sent_as sent ts
      \<and> effs = concat (map request_effects sent)
      \<and> transactions st' = transactions st ++ map_of (rev (map registration sent))"
proof (induction ts arbitrary: st k effs)
  case Nil
  then show ?case by simp
next
  case (Cons t ts)
  from Cons.prems(2) obtain st1 and e1 e2 :: "('req, 'resp) effect list" where
    one: "ip_sendRequest request_toBuffer st t = Some (st1, e1)"
    and rest: "ip_sendRequests request_toBuffer st1 ts = Some (st', e2)"
    and effs: "effs = e1 @ e2"
    by (auto split: option.splits)
  from ip_sendRequest_sent[OF Cons.prems(1) one] obtain s where
    s1: "fst s = int (Suc k mod 65535)" and s2: "sent_as s t" and s3: "e1 = request_effects s"
    and s4: "transactions st1 = (transactions st)(fst (registration s) \<mapsto> snd (registration s))"
    and s5: "nextTransactionId st1 = int (Suc k mod 65535)" by blast
  from Cons.IH[OF s5 rest] obtain sent where
    i1: "map fst sent = map (\<lambda>j. int (j mod 65535)) [Suc (Suc k)..<Suc (Suc k) + length ts]"
    and i2: "list_all2 sent_as sent ts"
    and i3: "e2 = concat (map request_effects sent)"
    and i4: "transactions st' = transactions st1 ++ map_of (rev (map registration sent))" by blast
  have u: "[Suc k..<Suc k + length (t # ts)] = Suc k # [Suc (Suc k)..<Suc (Suc k) + length ts]"
    by (subst upt_rec) simp
  have m: "transactions st' = transactions st ++ map_of (rev (map registration (s # sent)))"
    unfolding i4 s4 by (cases "registration s") (simp add: map_add_upd_left)
  show ?case
    using s1 s2 s3 i1 i2 i3 effs u m
    by (intro exI[of _ "s # sent"]) simp
qed

text \<open>
  C6: starting from a fresh transport, the successive \<open>sendRequest\<close> calls that go
  through use the ids 1, 2, 3, ...: the \<open>k\<close>-th call uses \<open>k mod 0xFFFF\<close>. So the ids
  grow by one up to 0xFFFE, the id after 0xFFFE is 0, and 0xFFFF is never used. The
  id of a call is the one its timeout handler is made for, the one in the first two
  bytes of the ADU it writes (a cached ADU is rewritten to it), and the key under which
  the transaction, with that ADU cached, is put into the map; a later call with the same
  id replaces the entry.
\<close>

theorem ip_transaction_ids:
  fixes ts :: "'req transaction list"
    and effs :: "('req, 'resp) effect list"
  assumes "ip_sendRequests request_toBuffer IpTransport ts = Some (st, effs)"
  shows "started_ids effs = map (\<lambda>k. int (k mod 65535)) [1..<Suc (length ts)]
         \<and> 65535 \<notin> set (started_ids effs)
         \<and> nextTransactionId st = int (length ts mod 65535)
         \<and> (\<exists>sent. map fst sent = started_ids effs
                \<and> list_all2 sent_as sent ts
                \<and> effs = concat (map request_effects sent)
                \<and> transactions st = map_of (rev (map registration sent)))"
proof -
  have z: "nextTransactionId (IpTransport :: 'req ip_state) = int (0 mod 65535)"
    by (simp add: IpTransport_def)
  from ip_sendRequests_ids[OF z assms]
  have ids: "started_ids effs = map (\<lambda>k. int (k mod 65535)) [1..<Suc (length ts)]"
    and nxt: "nextTransactionId st = int (length ts mod 65535)" by simp_all
  have no: "65535 \<notin> set (started_ids effs)"
  proof
    assume "65535 \<in> set (started_ids effs)"
    with ids obtain k where "int (k mod 65535) = 65535" by auto
    moreover have "k mod 65535 < 65535" by simp
    ultimately show False by linarith
  qed
  from ip_sendRequests_sent[OF z assms] obtain sent where
    "map fst sent = map (\<lambda>j. int (j mod 65535)) [Suc 0..<Suc 0 + length ts]"
    and l: "list_all2 sent_as sent ts"
    and e: "effs = concat (map request_effects sent)"
    and m: "transactions st
              = transactions (IpTransport :: 'req ip_state) ++ map_of (rev (map registration sent))"
    by blast
  then have f: "map fst sent = started_ids effs" using ids by simp
  have "transactions st = map_of (rev (map registration sent))"
    using m by (simp add: IpTransport_def)
  with f l e have "\<exists>sent. map fst sent = started_ids effs
                \<and> list_all2 sent_as sent ts
                \<and> effs = concat (map request_effects sent)
                \<and> transactions st = map_of (rev (map registration sent))"
    by blast
  with ids no nxt show ?thesis by blast
qed

text \<open>
  Two requests on a fresh transport, read coils at 0 and at 8 for unit 1, the second
  one a retry whose cached ADU still carries the id 9: the ADUs written carry the ids
  1 and 2.
\<close>

theorem ip_transaction_ids_witness:
  "ip_sendRequests (\<lambda>req. [0x01, 0x00, req, 0x00, 0x08]) IpTransport
      [\<lparr>tx_request = 0, tx_unit = 1, tx_adu = None\<rparr>,
       \<lparr>tx_request = 8, tx_unit = 1,
        tx_adu = Some [0, 9, 0, 0, 0, 6, 1, 1, 0, 8, 0, 8]\<rparr>]
     = Some (\<lparr>ip_reader = [], ip_header = header_reset, nextTransactionId = 2,
              transactions =
                [1 \<mapsto> \<lparr>tx_request = 0, tx_unit = 1,
                         tx_adu = Some [0, 1, 0, 0, 0, 6, 1, 1, 0, 0, 0, 8]\<rparr>,
                 2 \<mapsto> \<lparr>tx_request = 8, tx_unit = 1,
                         tx_adu = Some [0, 2, 0, 0, 0, 6, 1, 1, 0, 8, 0, 8]\<rparr>]\<rparr>,
         ([EmitRequest \<lparr>tx_request = 0, tx_unit = 1,
                        tx_adu = Some [0, 1, 0, 0, 0, 6, 1, 1, 0, 0, 0, 8]\<rparr>,
           Write [0, 1, 0, 0, 0, 6, 1, 1, 0, 0, 0, 8],
           Start \<lparr>tx_request = 0, tx_unit = 1,
                  tx_adu = Some [0, 1, 0, 0, 0, 6, 1, 1, 0, 0, 0, 8]\<rparr> (Some 1),
           EmitRequest \<lparr>tx_request = 8, tx_unit = 1,
                        tx_adu = Some [0, 2, 0, 0, 0, 6, 1, 1, 0, 8, 0, 8]\<rparr>,
           Write [0, 2, 0, 0, 0, 6, 1, 1, 0, 8, 0, 8],
           Start \<lparr>tx_request = 8, tx_unit = 1,
                  tx_adu = Some [0, 2, 0, 0, 0, 6, 1, 1, 0, 8, 0, 8]\<rparr> (Some 2)]
          :: (byte, unit) effect list))
   \<and> started_ids
         ([EmitRequest \<lparr>tx_request = 0, tx_unit = 1,
                        tx_adu = Some [0, 1, 0, 0, 0, 6, 1, 1, 0, 0, 0, 8]\<rparr>,
           Write [0, 1, 0, 0, 0, 6, 1, 1, 0, 0, 0, 8],
           Start \<lparr>tx_request = 0, tx_unit = 1,
                  tx_adu = Some [0, 1, 0, 0, 0, 6, 1, 1, 0, 0, 0, 8]\<rparr> (Some 1),
           EmitRequest \<lparr>tx_request = 8, tx_unit = 1,
                        tx_adu = Some [0, 2, 0, 0, 0, 6, 1, 1, 0, 8, 0, 8]\<rparr>,
           Write [0, 2, 0, 0, 0, 6, 1, 1, 0, 8, 0, 8],
           Start \<lparr>tx_request = 8, tx_unit = 1,
                  tx_adu = Some [0, 2, 0, 0, 0, 6, 1, 1, 0, 8, 0, 8]\<rparr> (Some 2)]
          :: (byte, unit) effect list)
      = [1, 2]"
proof -
  have h: "ip_sendRequests (\<lambda>req. [0x01, 0x00, req, 0x00, 0x08]) IpTransport
      [\<lparr>tx_request = 0, tx_unit = 1, tx_adu = None\<rparr>,
       \<lparr>tx_request = 8, tx_unit = 1,
        tx_adu = Some [0, 9, 0, 0, 0, 6, 1, 1, 0, 8, 0, 8]\<rparr>]
     = Some (\<lparr>ip_reader = [], ip_header = header_reset, nextTransactionId = 2,
              transactions =
                [1 \<mapsto> \<lparr>tx_request = 0, tx_unit = 1,
                         tx_adu = Some [0, 1, 0, 0, 0, 6, 1, 1, 0, 0, 0, 8]\<rparr>,
                 2 \<mapsto> \<lparr>tx_request = 8, tx_unit = 1,
                         tx_adu = Some [0, 2, 0, 0, 0, 6, 1, 1, 0, 8, 0, 8]\<rparr>]\<rparr>,
         ([EmitRequest \<lparr>tx_request = 0, tx_unit = 1,
                        tx_adu = Some [0, 1, 0, 0, 0, 6, 1, 1, 0, 0, 0, 8]\<rparr>,
           Write [0, 1, 0, 0, 0, 6, 1, 1, 0, 0, 0, 8],
           Start \<lparr>tx_request = 0, tx_unit = 1,
                  tx_adu = Some [0, 1, 0, 0, 0, 6, 1, 1, 0, 0, 0, 8]\<rparr> (Some 1),
           EmitRequest \<lparr>tx_request = 8, tx_unit = 1,
                        tx_adu = Some [0, 2, 0, 0, 0, 6, 1, 1, 0, 8, 0, 8]\<rparr>,
           Write [0, 2, 0, 0, 0, 6, 1, 1, 0, 8, 0, 8],
           Start \<lparr>tx_request = 8, tx_unit = 1,
                  tx_adu = Some [0, 2, 0, 0, 0, 6, 1, 1, 0, 8, 0, 8]\<rparr> (Some 2)]
          :: (byte, unit) effect list))"
    by (simp add: ip_sendRequest_def getNextTransactionId_def IpTransport_def ip_getAdu_def
          ip_frame_def pushUInt16BE_def pushByte_def writeUInt16BE0_def Let_def)
  show ?thesis using h ip_transaction_ids[OF h] by simp
qed

section \<open>Tunnel transport: the in-sequence poll\<close>

text \<open>
  C5, as stated, lets the next queued transaction become current on every in-sequence
  \<open>SLAVE_COMMAND\<close>. A transport with slave id 127 and sequence number 0 holds a
  current and a next transaction and receives the bare poll \<open>7F 47 00 73 E8\<close>. The
  sequence number becomes 1 and the reply carries the current request, but the current
  transaction stays current (its ADU is now cached) and the next one stays next.
\<close>

theorem tunnel_bare_poll_counterexample:
  "tun_handleFrameData (\<lambda>req b. (Inr b :: error + buffer)) (\<lambda>req. [0x11])
     \<lparr>tun_transaction = Some \<lparr>tx_request = (), tx_unit = 1, tx_adu = None\<rparr>,
      tun_nextTransaction = Some \<lparr>tx_request = (), tx_unit = 2, tx_adu = None\<rparr>,
      tun_reader = [[0x7F, 0x47, 0x00, 0x73, 0xE8]], tun_sequence = 0, tun_slaveId = 127\<rparr>
   = Some (\<lparr>tun_transaction =
               Some \<lparr>tx_request = (), tx_unit = 1,
                     tx_adu = Some [0x7F, 0x47, 0x01, 0x01, 0x11, 0xB5, 0x22]\<rparr>,
            tun_nextTransaction = Some \<lparr>tx_request = (), tx_unit = 2, tx_adu = None\<rparr>,
            tun_reader = [], tun_sequence = 1, tun_slaveId = 127\<rparr>,
           [Sniff ''pdu'' (Some [0x7F, 0x47, 0x00, 0x73, 0xE8]),
            Write [0x7F, 0x47, 0x01, 0x01, 0x11, 0xB5, 0x22]])"
  by code_simp

lemma tun_sendSlaveResponse_ok:
  assumes "0 \<le> tun_slaveId st" "tun_slaveId st \<le> 255"
  shows "\<exists>st' adu. tun_sendSlaveResponse request_toBuffer st = Some (st', [Write adu])
           \<and> same_transaction (tun_transaction st') (tun_transaction st)
           \<and> tun_nextTransaction st' = tun_nextTransaction st
           \<and> tun_sequence st' = tun_sequence st"
  using assms
  by (auto simp: tun_sendSlaveResponse_def tun_getAdu_def tun_buildAdu_def tun_frame_def
        pushByte_def same_transaction_def Let_def split: option.splits)


text \<open>
  C5, amended: when the Tunnel transport receives a well-framed frame addressed to its
  slave id whose first PDU byte is \<open>SLAVE_COMMAND\<close> (0x47) and whose second PDU byte
  equals the sequence counter, the counter is incremented modulo 256 and a reply is
  written. If a transaction is pending and the PDU carries bytes beyond the two bytes of
  \<open>SLAVE_COMMAND\<close> and sequence number, bytes of the PDU beyond those two are decoded
  (the decoder is handed the PDU from its third or from its fourth byte on; which of
  the two is not fixed here) and the outcome is delivered to the current transaction,
  the next queued transaction becomes current and is started, and the next slot is
  empty. Otherwise the current and the next transaction stay as they are.
\<close>

theorem tunnel_in_sequence_command:
  fixes st :: "'req tunnel_state"
    and createResponse :: "'req \<Rightarrow> buffer \<Rightarrow> error + 'resp"
  assumes "concat (tun_reader st) = unit # pdu @ pushUInt16LE (crc16 (uint unit) pdu)"
    and "uint unit = tun_slaveId st"
    and "pdu = SLAVE_COMMAND # sq # rest"
    and "uint sq = tun_sequence st"
  shows "\<exists>st' adu k.
      tun_sequence st' = (tun_sequence st + 1) mod 256
      \<and> 2 \<le> k \<and> k \<le> 3
      \<and> (case tun_transaction st of
            Some t \<Rightarrow>
              if rest \<noteq> [] then
                tun_handleFrameData createResponse request_toBuffer st =
                  Some (st', [Sniff ''pdu'' (Some (concat (tun_reader st))),
                              case createResponse (tx_request t) (drop k pdu) of
                                Inr response \<Rightarrow> HandleResponse t response
                              | Inl err \<Rightarrow> HandleError t err]
                             @ (case tun_nextTransaction st of None \<Rightarrow> []
                                | Some n \<Rightarrow> [EmitRequest n, Start n None])
                             @ [Write adu])
                \<and> same_transaction (tun_transaction st') (tun_nextTransaction st)
                \<and> tun_nextTransaction st' = None
              else
                tun_handleFrameData createResponse request_toBuffer st =
                  Some (st', [Sniff ''pdu'' (Some (concat (tun_reader st))), Write adu])
                \<and> same_transaction (tun_transaction st') (tun_transaction st)
                \<and> tun_nextTransaction st' = tun_nextTransaction st
          | None \<Rightarrow>
              tun_handleFrameData createResponse request_toBuffer st =
                Some (st', [Sniff ''pdu'' (Some (concat (tun_reader st))), Write adu])
              \<and> tun_transaction st' = None
              \<and> tun_nextTransaction st' = tun_nextTransaction st)"
proof -
  have ne: "pdu \<noteq> []" using assms(3) by simp
  have len: "\<not> length (concat (tun_reader st)) < 4"
    using assms(1,3) by (simp add: pushUInt16LE_def)
  have sf: "shiftFrame (concat (tun_reader st)) = Some (unit, pdu, crc16 (uint unit) pdu, [])"
    using assms(1) shiftFrame_frame[OF ne] by simp
  have sid: "0 \<le> tun_slaveId st" "tun_slaveId st \<le> 255"
    using uint_byte_range[of unit] assms(2) by simp_all
  have sq: "(tun_sequence st + 1) AND 255 = (tun_sequence st + 1) mod 256"
    using and_255[of "tun_sequence st + 1"] uint_byte_range[of sq] assms(4) by simp
  define st1 where "st1 = st\<lparr>tun_reader := []\<rparr>"
  define st2e where "st2e = tun_inSequence createResponse st1 pdu"
  have hfd: "tun_handleFrameData createResponse request_toBuffer st =
      (case tun_sendSlaveResponse request_toBuffer (fst st2e) of None \<Rightarrow> None
       | Some (st3, effs') \<Rightarrow>
           Some (st3, Sniff ''pdu'' (Some (concat (tun_reader st))) # snd st2e @ effs'))"
  proof -
    have p: "pdu ! 0 = SLAVE_COMMAND" "1 < length pdu" "uint (pdu ! 1) = tun_sequence st"
      using assms(3,4) by simp_all
    show ?thesis
      unfolding tun_handleFrameData_def st2e_def st1_def
      using len sf assms(2) p
      by (simp add: tun_validate_def Let_def case_prod_beta)
  qed
  have sid2: "0 \<le> tun_slaveId (fst st2e)" "tun_slaveId (fst st2e) \<le> 255"
    using sid unfolding st2e_def st1_def tun_inSequence_def
    by (auto simp: Let_def split: option.splits)
  from tun_sendSlaveResponse_ok[OF sid2, of request_toBuffer] obtain st' adu where
    ssr: "tun_sendSlaveResponse request_toBuffer (fst st2e)
            = Some (st', [Write adu :: ('req, 'resp) effect])"
    and same: "same_transaction (tun_transaction st') (tun_transaction (fst st2e))"
    and nxt: "tun_nextTransaction st' = tun_nextTransaction (fst st2e)"
    and seq': "tun_sequence st' = tun_sequence (fst st2e)" by blast
  have seq2: "tun_sequence (fst st2e) = (tun_sequence st + 1) mod 256"
    unfolding st2e_def st1_def tun_inSequence_def using sq
    by (auto simp: Let_def split: option.splits)
  have hfd2: "tun_handleFrameData createResponse request_toBuffer st =
      Some (st', Sniff ''pdu'' (Some (concat (tun_reader st))) # snd st2e @ [Write adu])"
    using hfd ssr by simp
  have seq3: "tun_sequence st' = (tun_sequence st + 1) mod 256"
    using seq' seq2 by simp
  show ?thesis
  proof (cases "tun_transaction st")
    case None
    then have e: "snd st2e = []"
      and tr: "tun_transaction (fst st2e) = None"
      and nx: "tun_nextTransaction (fst st2e) = tun_nextTransaction st"
      unfolding st2e_def st1_def tun_inSequence_def by (simp_all add: Let_def)
    have "tun_transaction st' = None"
      using same tr by (simp add: same_transaction_def)
    with None hfd2 e nxt nx seq3 show ?thesis
      by (intro exI[of _ st'] exI[of _ adu] exI[of _ 3]) simp
  next
    case (Some t)
    show ?thesis
    proof (cases "rest = []")
      case True
      then have e: "snd st2e = []"
        and tr: "tun_transaction (fst st2e) = tun_transaction st"
        and nx: "tun_nextTransaction (fst st2e) = tun_nextTransaction st"
        unfolding st2e_def st1_def tun_inSequence_def using Some assms(3)
        by (simp_all add: Let_def)
      from True Some hfd2 e same nxt seq3 show ?thesis
        by (intro exI[of _ st'] exI[of _ adu] exI[of _ 3]) (simp add: tr nx)
    next
      case False
      then have l: "length pdu > 2" using assms(3) by (cases rest) simp_all
      have tr: "tun_transaction (fst st2e) = tun_nextTransaction st"
        and nx: "tun_nextTransaction (fst st2e) = None"
        unfolding st2e_def st1_def tun_inSequence_def using Some l by (simp_all add: Let_def)
      have e: "snd st2e =
          (case createResponse (tx_request t) (drop 3 pdu) of
             Inr response \<Rightarrow> HandleResponse t response
           | Inl err \<Rightarrow> HandleError t err)
          # (case tun_nextTransaction st of None \<Rightarrow> [] | Some n \<Rightarrow> [EmitRequest n, Start n None])"
        unfolding st2e_def st1_def tun_inSequence_def using Some l
        by (simp add: Let_def tun_startTransaction_def)
      from False Some hfd2 same nxt seq3 show ?thesis
        by (intro exI[of _ st'] exI[of _ adu] exI[of _ 3]) (simp add: e tr nx)
    qed
  qed
qed


text \<open>
  The transport of the counterexample receives \<open>7F 47 00 01 11 09 22 4D\<close>: bytes
  behind \<open>47 00\<close> are delivered to the current transaction, the sequence number
  becomes 1 and the next transaction moves up.
\<close>

theorem tunnel_in_sequence_command_witness:
  "\<exists>st' adu k.
     tun_sequence st' = 1
     \<and> 2 \<le> k \<and> k \<le> 3
     \<and> tun_handleFrameData (\<lambda>req b. (Inr b :: error + buffer)) (\<lambda>req. [0x11])
         \<lparr>tun_transaction = Some \<lparr>tx_request = (), tx_unit = 1, tx_adu = None\<rparr>,
          tun_nextTransaction = Some \<lparr>tx_request = (), tx_unit = 2, tx_adu = None\<rparr>,
          tun_reader = [[0x7F, 0x47, 0x00, 0x01, 0x11, 0x09, 0x22, 0x4D]],
          tun_sequence = 0, tun_slaveId = 127\<rparr>
       = Some (st', [Sniff ''pdu'' (Some [0x7F, 0x47, 0x00, 0x01, 0x11, 0x09, 0x22, 0x4D]),
                     HandleResponse \<lparr>tx_request = (), tx_unit = 1, tx_adu = None\<rparr>
                       (drop k [0x47, 0x00, 0x01, 0x11, 0x09]),
                     EmitRequest \<lparr>tx_request = (), tx_unit = 2, tx_adu = None\<rparr>,
                     Start \<lparr>tx_request = (), tx_unit = 2, tx_adu = None\<rparr> None,
                     Write adu])
     \<and> same_transaction (tun_transaction st')
           (Some \<lparr>tx_request = (), tx_unit = 2, tx_adu = None\<rparr>)
     \<and> tun_nextTransaction st' = None"
proof -
  have c: "crc16 (uint (0x7F :: byte)) [0x47, 0x00, 0x01, 0x11, 0x09] = 0x4D22" by code_simp
  have f: "concat (tun_reader
              \<lparr>tun_transaction = Some \<lparr>tx_request = (), tx_unit = 1, tx_adu = None\<rparr>,
               tun_nextTransaction = Some \<lparr>tx_request = (), tx_unit = 2, tx_adu = None\<rparr>,
               tun_reader = [[0x7F, 0x47, 0x00, 0x01, 0x11, 0x09, 0x22, 0x4D]],
               tun_sequence = 0, tun_slaveId = 127\<rparr>)
            = 0x7F # [0x47, 0x00, 0x01, 0x11, 0x09]
                @ pushUInt16LE (crc16 (uint (0x7F :: byte)) [0x47, 0x00, 0x01, 0x11, 0x09])"
    unfolding c by (simp add: pushUInt16LE_def)
  have u: "uint (0x7F :: byte) = tun_slaveId
              \<lparr>tun_transaction = Some \<lparr>tx_request = (), tx_unit = 1, tx_adu = None\<rparr>,
               tun_nextTransaction = Some \<lparr>tx_request = (), tx_unit = 2, tx_adu = None\<rparr>,
               tun_reader = [[0x7F, 0x47, 0x00, 0x01, 0x11, 0x09, 0x22, 0x4D]],
               tun_sequence = 0, tun_slaveId = 127\<rparr>"
    by simp
  have p: "[0x47, 0x00, 0x01, 0x11, 0x09] = SLAVE_COMMAND # 0x00 # [0x01, 0x11, 0x09]"
    by (simp add: SLAVE_COMMAND_def)
  have q: "uint (0x00 :: byte) = tun_sequence
              \<lparr>tun_transaction = Some \<lparr>tx_request = (), tx_unit = 1, tx_adu = None\<rparr>,
               tun_nextTransaction = Some \<lparr>tx_request = (), tx_unit = 2, tx_adu = None\<rparr>,
               tun_reader = [[0x7F, 0x47, 0x00, 0x01, 0x11, 0x09, 0x22, 0x4D]],
               tun_sequence = 0, tun_slaveId = 127\<rparr>"
    by simp
  show ?thesis
    using tunnel_in_sequence_command[OF f u p q,
            of "\<lambda>req b. (Inr b :: error + buffer)" "\<lambda>req. [0x11]"]
    by simp
qed


section \<open>Function codec: decoding and encoding again\<close>

subsection \<open>One message type at a time\<close>

lemma rt_CommandResponse:
  assumes "CommandResponse_fromBuffer B = Inr m"
  shows "toBuffer m = B"
proof -
  from assms have len: "2 \<le> length B"
    by (auto simp: CommandResponse_fromBuffer_def andThen_def assertBufferLength_def split: if_splits)
  then obtain a b r where B: "B = a # b # r" using list2 by blast
  have c: "buffer_copy B (newBuffer (length r)) 2 (length r + 2) = Inr r"
    using buffer_copy_exact[of B 2 "length r"] B by (simp add: add.commute)
  from assms show ?thesis
    unfolding CommandResponse_fromBuffer_def B
    apply (simp add: andThen_def assertBufferLength_def assertFunctionCode_def Let_def split: if_splits)
    using c[unfolded B]
    apply (auto simp: new_CommandResponse_def byte_of_def split: if_splits)
    done
qed

lemma rt_ReadObjectRequest:
  assumes "ReadObjectRequest_fromBuffer B = Inr m" "length B = 2"
  shows "toBuffer m = B"
proof -
  from assms(2) obtain a b where B: "B = [a, b]" using list2[of B] by auto
  from assms(1) show ?thesis
    unfolding ReadObjectRequest_fromBuffer_def B
    by (auto simp: andThen_def assertBufferLength_def assertFunctionCode_def
          new_ReadObjectRequest_def prepareNumericOption_def byte_of_def split: if_splits)
qed

lemma rt_ReadObjectResponse:
  assumes "ReadObjectResponse_fromBuffer B = Inr m" "length B = 2 + unat (B ! 1)"
  shows "toBuffer m = B"
proof -
  from assms(2) obtain a b r where B: "B = a # b # r" using list2[of B] by auto
  have n: "length r = unat b" using assms(2) B by simp
  have c: "buffer_copy B (newBuffer (unat b)) 2 (unat b + 2) = Inr r"
    using buffer_copy_exact[of B 2 "unat b"] B n by (simp add: add.commute)
  from assms(1) show ?thesis
    unfolding ReadObjectResponse_fromBuffer_def B
    apply (simp add: andThen_def assertBufferLength_def assertFunctionCode_def Let_def split: if_splits)
    using c[unfolded B] n
    apply (auto simp: new_ReadObjectResponse_def byte_of_def split: if_splits)
    done
qed

lemma rt_WriteObjectRequest:
  assumes "WriteObjectRequest_fromBuffer B = Inr m" "length B = 3 + unat (B ! 2)"
  shows "toBuffer m = B"
proof -
  from assms(2) obtain a b c r where B: "B = a # b # c # r" using list3[of B] by auto
  have n: "length r = unat c" using assms(2) B by simp
  have c: "buffer_copy B (newBuffer (unat c)) 3 (3 + unat c) = Inr r"
    using buffer_copy_exact[of B 3 "unat c"] B n by simp
  from assms(1) show ?thesis
    unfolding WriteObjectRequest_fromBuffer_def B
    apply (simp add: andThen_def assertBufferLength_def assertFunctionCode_def Let_def split: if_splits)
    using c[unfolded B] n
    apply (auto simp: new_WriteObjectRequest_def prepareNumericOption_def andThen_def byte_of_def
                split: if_splits)
    done
qed

lemma rt_WriteObjectResponse:
  assumes "WriteObjectResponse_fromBuffer B = Inr m" "length B = 2"
  shows "toBuffer m = B"
proof -
  from assms(2) obtain a b where B: "B = [a, b]" using list2[of B] by auto
  from assms(1) show ?thesis
    unfolding WriteObjectResponse_fromBuffer_def B
    by (auto simp: andThen_def assertBufferLength_def assertFunctionCode_def
          new_WriteObjectResponse_def prepareNumericOption_def byte_of_def split: if_splits)
qed

lemma rt_ReadMemoryRequest:
  assumes "ReadMemoryRequest_fromBuffer B = Inr m" "length B = 4"
  shows "toBuffer m = B"
proof -
  from assms(2) obtain a b c r where B0: "B = a # b # c # r" using list3[of B] by auto
  with assms(2) obtain d where B: "B = [a, b, c, d]" by (cases r) auto
  from assms(1) show ?thesis
    unfolding ReadMemoryRequest_fromBuffer_def B
    by (auto simp: andThen_def assertBufferLength_def assertFunctionCode_def readUInt16BE_def
          new_ReadMemoryRequest_def prepareNumericOption_def prepareAddress_def byte_of_def
          write_read_UInt16BE split: if_splits)
qed

lemma rt_ReadMemoryResponse:
  assumes "ReadMemoryResponse_fromBuffer B = Inr m"
  shows "toBuffer m = B"
proof -
  from assms have len: "2 \<le> length B"
    by (auto simp: ReadMemoryResponse_fromBuffer_def andThen_def assertBufferLength_def split: if_splits)
  then obtain a r where B: "B = a # r" by (cases B) auto
  have c: "buffer_copy B (newBuffer (length r)) 1 (length r + 1) = Inr r"
    using buffer_copy_exact[of B 1 "length r"] B by (simp add: add.commute)
  from assms show ?thesis
    unfolding ReadMemoryResponse_fromBuffer_def B
    apply (simp add: andThen_def assertBufferLength_def assertFunctionCode_def Let_def split: if_splits)
    using c[unfolded B]
    apply (auto simp: new_ReadMemoryResponse_def split: if_splits)
    done
qed

lemma rt_WriteMemoryRequest:
  assumes "WriteMemoryRequest_fromBuffer B = Inr m"
  shows "toBuffer m = B"
proof -
  from assms have len: "4 \<le> length B"
    by (auto simp: WriteMemoryRequest_fromBuffer_def andThen_def assertBufferLength_def split: if_splits)
  then obtain a b c r where B: "B = a # b # c # r" using list3[of B] by auto
  have c: "buffer_copy B (newBuffer (length r)) 3 (length r + 3) = Inr r"
    using buffer_copy_exact[of B 3 "length r"] B by (simp add: add.commute)
  from assms show ?thesis
    unfolding WriteMemoryRequest_fromBuffer_def B
    apply (simp add: andThen_def assertBufferLength_def assertFunctionCode_def Let_def readUInt16BE_def split: if_splits)
    using c[unfolded B]
    apply (auto simp: new_WriteMemoryRequest_def prepareAddress_def prepareNumericOption_def
                andThen_def write_read_UInt16BE split: if_splits)
    done
qed

lemma rt_WriteMemoryResponse:
  assumes "WriteMemoryResponse_fromBuffer B = Inr m" "length B = 2"
  shows "toBuffer m = B"
proof -
  from assms(2) obtain a b where B: "B = [a, b]" using list2[of B] by auto
  from assms(1) show ?thesis
    unfolding WriteMemoryResponse_fromBuffer_def B
    by (auto simp: andThen_def assertBufferLength_def assertFunctionCode_def
          new_WriteMemoryResponse_def prepareNumericOption_def byte_of_def split: if_splits)
qed

lemma rt_ReadFifo8Request:
  assumes "ReadFifo8Request_fromBuffer B = Inr m" "length B = 3"
  shows "toBuffer m = B"
proof -
  from assms(2) obtain a b c where B: "B = [a, b, c]" using list3[of B] by auto
  from assms(1) show ?thesis
    unfolding ReadFifo8Request_fromBuffer_def B
    by (auto simp: andThen_def assertBufferLength_def assertFunctionCode_def
          new_ReadFifo8Request_def prepareNumericOption_def byte_of_def split: if_splits)
qed

lemma rt_ReadFifo8Response:
  assumes "ReadFifo8Response_fromBuffer B = Inr m" "length B = 3 + unat (B ! 2)" "B ! 1 \<le> 3"
  shows "toBuffer m = B"
proof -
  from assms(2) obtain a b c r where B: "B = a # b # c # r" using list3[of B] by auto
  have n: "length r = unat c" using assms(2) B by simp
  have c: "buffer_copy B (newBuffer (unat c)) 3 (unat c + 3) = Inr r"
    using buffer_copy_exact[of B 3 "unat c"] B n by (simp add: add.commute)
  have st: "(if b AND 2 > 0 then (if b AND 1 > 0 then (0::byte) OR 1 else 0) OR 2 else (if b AND 1 > 0 then 0 OR 1 else 0)) = b"
    using status_bits[of b] assms(3) B by simp
  from assms(1) show ?thesis
    unfolding ReadFifo8Response_fromBuffer_def B
    apply (simp add: andThen_def assertBufferLength_def assertFunctionCode_def Let_def split: if_splits)
    using c[unfolded B] n st
    apply (auto simp: new_ReadFifo8Response_def byte_of_def Let_def split: if_splits)
    done
qed

lemma rt_WriteFifo8Request:
  assumes "WriteFifo8Request_fromBuffer B = Inr m" "length B = 3 + unat (B ! 2)"
  shows "toBuffer m = B"
proof -
  from assms(2) obtain a b c r where B: "B = a # b # c # r" using list3[of B] by auto
  have n: "length r = unat c" using assms(2) B by simp
  have c: "buffer_copy B (newBuffer (unat c)) 3 (3 + unat c) = Inr r"
    using buffer_copy_exact[of B 3 "unat c"] B n by simp
  from assms(1) show ?thesis
    unfolding WriteFifo8Request_fromBuffer_def B
    apply (simp add: andThen_def assertBufferLength_def assertFunctionCode_def Let_def split: if_splits)
    using c[unfolded B] n
    apply (auto simp: new_WriteFifo8Request_def prepareNumericOption_def andThen_def byte_of_def
                split: if_splits)
    done
qed

lemma rt_WriteFifo8Response:
  assumes "WriteFifo8Response_fromBuffer B = Inr m" "length B = 2"
  shows "toBuffer m = B"
proof -
  from assms(2) obtain a b where B: "B = [a, b]" using list2[of B] by auto
  from assms(1) show ?thesis
    unfolding WriteFifo8Response_fromBuffer_def B
    by (auto simp: andThen_def assertBufferLength_def assertFunctionCode_def
          new_WriteFifo8Response_def prepareNumericOption_def byte_of_def split: if_splits)
qed

lemma rt_ReportSlaveIdRequest:
  assumes "ReportSlaveIdRequest_fromBuffer B = Inr m"
  shows "toBuffer m = B"
proof -
  from assms have "length B = 1"
    by (auto simp: ReportSlaveIdRequest_fromBuffer_def split: if_splits)
  then obtain a where B: "B = [a]" by (cases B) auto
  from assms show ?thesis
    unfolding ReportSlaveIdRequest_fromBuffer_def B
    by (auto simp: andThen_def assertFunctionCode_def split: if_splits)
qed

lemma WriteSingleCoilResponse_decode:
  assumes "length B = 5" "B ! 0 = 0x05"
  shows "WriteSingleCoilResponse_fromBuffer B
           = Inr (WriteSingleCoilResponse (readUInt16BE B 1) (readUInt16BE B 3 = 0xFF00))"
proof -
  from assms(1) obtain a b c r where B0: "B = a # b # c # r" using list3[of B] by auto
  with assms(1) obtain d e where B: "B = [a, b, c, d, e]" by (cases r; cases "tl r") auto
  have r: "\<not> uint b * 256 + uint c < 0" "\<not> uint b * 256 + uint c > 65535"
    using uint16_range[of b c] by arith+
  show ?thesis
    using assms(2) unfolding WriteSingleCoilResponse_fromBuffer_def B
    by (simp add: r andThen_def assertBufferLength_def assertFunctionCode_def readUInt16BE_def
          new_WriteSingleCoilResponse_def prepareNumericOption_def prepareAddress_def Let_def)
qed

lemma WriteSingleCoilResponse_encode:
  assumes "length B = 5"
  shows "toBuffer (WriteSingleCoilResponse (readUInt16BE B 1) s)
           = [0x05, B ! 1, B ! 2] @ (if s then [0xFF, 0x00] else [0x00, 0x00])"
proof -
  from assms(1) obtain a b c r where B0: "B = a # b # c # r" using list3[of B] by auto
  with assms(1) obtain d e where B: "B = [a, b, c, d, e]" by (cases r; cases "tl r") auto
  have "writeUInt16BE 0xFF00 = [0xFF, 0x00]" "writeUInt16BE 0 = [0, 0]"
    by (simp_all add: writeUInt16BE_def)
  then show ?thesis
    unfolding B by (simp add: readUInt16BE_def write_read_UInt16BE)
qed

lemma rt_WriteSingleCoilResponse:
  assumes "WriteSingleCoilResponse_fromBuffer B = Inr m" "length B = 5"
    "readUInt16BE B 3 = 0xFF00 \<or> readUInt16BE B 3 = 0x0000"
  shows "toBuffer m = B"
proof -
  from assms(2) obtain a b c r where B0: "B = a # b # c # r" using list3[of B] by auto
  with assms(2) obtain d e where B: "B = [a, b, c, d, e]" by (cases r; cases "tl r") auto
  have a: "a = 0x05" using assms(1) unfolding WriteSingleCoilResponse_fromBuffer_def B
    by (auto simp: andThen_def assertBufferLength_def assertFunctionCode_def split: if_splits)
  then have "B ! 0 = 0x05" using B by simp
  from WriteSingleCoilResponse_decode[OF assms(2) this] assms(1)
  have m: "m = WriteSingleCoilResponse (readUInt16BE B 1) (readUInt16BE B 3 = 0xFF00)" by simp
  have v: "writeUInt16BE (if readUInt16BE B 3 = 0xFF00 then 0xFF00 else 0x0000)
             = writeUInt16BE (readUInt16BE B 3)"
    using assms(3) by auto
  have "writeUInt16BE (readUInt16BE B 3) = [d, e]" "writeUInt16BE (readUInt16BE B 1) = [b, c]"
    unfolding B by (simp_all add: readUInt16BE_def write_read_UInt16BE)
  with v a show ?thesis unfolding m by (simp add: B)
qed


subsection \<open>C1\<close>

text \<open>
  C1, as stated, holds for every buffer a type's \<open>fromBuffer\<close> accepts. The buffer
  \<open>41 04 01 AA\<close> has the layout of a FIFO read response: status, byte count 1, one
  data byte. \<open>ReadFifo8Response.fromBuffer\<close> accepts it and keeps of the status only
  the flags \<open>more\<close> and \<open>overflow\<close>, both off here; \<open>toBuffer\<close> writes the status 0.
\<close>

theorem codec_round_trip_counterexample:
  "fromBuffer TReadFifo8Response [0x41, 0x04, 0x01, 0xAA]
     = Inr (ReadFifo8Response False False [0xAA])
   \<and> toBuffer (ReadFifo8Response False False [0xAA]) = [0x41, 0x00, 0x01, 0xAA]
   \<and> toBuffer (ReadFifo8Response False False [0xAA]) \<noteq> [0x41, 0x04, 0x01, 0xAA]"
  by code_simp

text \<open>
  C1, amended: for the message types \<open>CommandResponse\<close>, \<open>ReadObjectRequest\<close>,
  \<open>ReadObjectResponse\<close>, \<open>WriteObjectRequest\<close>, \<open>WriteObjectResponse\<close>,
  \<open>ReadMemoryRequest\<close>, \<open>ReadMemoryResponse\<close>, \<open>WriteMemoryRequest\<close>,
  \<open>WriteMemoryResponse\<close>, \<open>ReadFifo8Request\<close>, \<open>ReadFifo8Response\<close>,
  \<open>WriteFifo8Request\<close>, \<open>WriteFifo8Response\<close>, \<open>ReportSlaveIdRequest\<close> and
  \<open>WriteSingleCoilResponse\<close>: for every buffer \<open>B\<close> that \<open>fromBuffer\<close> accepts and that
  has exactly the type's layout (no byte after the layout's end, a byte count equal to
  the number of bytes that follow it, a FIFO status within the two flag bits, a coil
  value of 0xFF00 or 0x0000), \<open>toBuffer\<close> of the decoded value is \<open>B\<close>.
\<close>

theorem codec_round_trip:
  assumes "fromBuffer T B = Inr m" and "exact_layout T B"
  shows "toBuffer m = B"
proof (cases T)
  case TCommandRequest
  with assms(2) show ?thesis by simp
next
  case TCommandResponse
  with assms(1) show ?thesis by (simp add: rt_CommandResponse)
next
  case TReadObjectRequest
  with assms show ?thesis by (simp add: rt_ReadObjectRequest)
next
  case TReadObjectResponse
  with assms show ?thesis by (simp add: rt_ReadObjectResponse)
next
  case TWriteObjectRequest
  with assms show ?thesis by (simp add: rt_WriteObjectRequest)
next
  case TWriteObjectResponse
  with assms show ?thesis by (simp add: rt_WriteObjectResponse)
next
  case TReadMemoryRequest
  with assms show ?thesis by (simp add: rt_ReadMemoryRequest)
next
  case TReadMemoryResponse
  with assms(1) show ?thesis by (simp add: rt_ReadMemoryResponse)
next
  case TWriteMemoryRequest
  with assms(1) show ?thesis by (simp add: rt_WriteMemoryRequest)
next
  case TWriteMemoryResponse
  with assms show ?thesis by (simp add: rt_WriteMemoryResponse)
next
  case TReadFifo8Request
  with assms show ?thesis by (simp add: rt_ReadFifo8Request)
next
  case TReadFifo8Response
  with assms show ?thesis by (simp add: rt_ReadFifo8Response)
next
  case TWriteFifo8Request
  with assms show ?thesis by (simp add: rt_WriteFifo8Request)
next
  case TWriteFifo8Response
  with assms show ?thesis by (simp add: rt_WriteFifo8Response)
next
  case TReportSlaveIdRequest
  with assms(1) show ?thesis by (simp add: rt_ReportSlaveIdRequest)
next
  case TReportSlaveIdResponse
  with assms(2) show ?thesis by simp
next
  case TReadDiagnosticsResponse
  with assms(2) show ?thesis by simp
next
  case TWriteSingleCoilResponse
  with assms show ?thesis by (simp add: rt_WriteSingleCoilResponse)
qed

text \<open>
  The FIFO read response \<open>41 03 01 AA\<close>, with both flags on, comes back as it was.
\<close>

theorem codec_round_trip_witness:
  "fromBuffer TReadFifo8Response [0x41, 0x03, 0x01, 0xAA]
     = Inr (ReadFifo8Response True True [0xAA])
   \<and> exact_layout TReadFifo8Response [0x41, 0x03, 0x01, 0xAA]
   \<and> toBuffer (ReadFifo8Response True True [0xAA]) = [0x41, 0x03, 0x01, 0xAA]"
proof -
  have a: "fromBuffer TReadFifo8Response [0x41, 0x03, 0x01, 0xAA]
             = Inr (ReadFifo8Response True True [0xAA])"
    by code_simp
  have b: "exact_layout TReadFifo8Response [0x41, 0x03, 0x01, 0xAA]"
    by code_simp
  show ?thesis using a b codec_round_trip[OF a b] by (simp only: simp_thms)
qed

subsection \<open>C10\<close>

text \<open>
  C10: \<open>WriteSingleCoilResponse.fromBuffer\<close> succeeds on every buffer of 5 bytes whose
  first byte is 0x05; the decoded state is ON exactly when the 16-bit value field is
  0xFF00, and every other value decodes as OFF; \<open>toBuffer\<close> of the decoded response
  keeps the address bytes and writes the value field as FF 00 for ON and as 00 00 for
  OFF.
\<close>

theorem WriteSingleCoilResponse_decoding:
  assumes "length B = 5" and "B ! 0 = 0x05"
  shows "WriteSingleCoilResponse_fromBuffer B
           = Inr (WriteSingleCoilResponse (readUInt16BE B 1) (readUInt16BE B 3 = 0xFF00))
         \<and> toBuffer (WriteSingleCoilResponse (readUInt16BE B 1) (readUInt16BE B 3 = 0xFF00))
           = [0x05, B ! 1, B ! 2]
             @ (if readUInt16BE B 3 = 0xFF00 then [0xFF, 0x00] else [0x00, 0x00])"
  using WriteSingleCoilResponse_decode[OF assms] WriteSingleCoilResponse_encode[OF assms(1)]
  by simp

text \<open>
  The response \<open>05 00 13 00 01\<close>, with the value 0x0001, decodes as OFF at address 19
  and is encoded as \<open>05 00 13 00 00\<close>.
\<close>

theorem WriteSingleCoilResponse_decoding_witness:
  "WriteSingleCoilResponse_fromBuffer [0x05, 0x00, 0x13, 0x00, 0x01]
     = Inr (WriteSingleCoilResponse 19 False)
   \<and> toBuffer (WriteSingleCoilResponse 19 False) = [0x05, 0x00, 0x13, 0x00, 0x00]"
proof -
  have a: "length [0x05, 0x00, 0x13, 0x00, 0x01 :: byte] = 5" by simp
  have b: "[0x05, 0x00, 0x13, 0x00, 0x01 :: byte] ! 0 = 0x05" by simp
  have r: "readUInt16BE [0x05, 0x00, 0x13, 0x00, 0x01] 1 = 19"
    "readUInt16BE [0x05, 0x00, 0x13, 0x00, 0x01] 3 = 1"
    by (simp_all add: readUInt16BE_def)
  show ?thesis
    using WriteSingleCoilResponse_decoding[OF a b] unfolding r by simp
qed

end
